theory Spec2Isabelle
  imports Main "HOL-Library.Char_ord" "HOL-Library.List_Lexorder" "HOL-Library.Product_Lexorder"
begin

section \<open>The runtime coordinator of uptime-kuma: \<^verbatim>\<open>server/uptime-kuma-server.js\<close>\<close>

text \<open>
  A shallow embedding of class \<^verbatim>\<open>UptimeKumaServer\<close>. Every \<^verbatim>\<open>async\<close> method becomes a
  function from the state it reads to its result and the state it leaves; a rejected
  promise (a thrown exception) is the \<open>Inl\<close> branch of the result. The JavaScript runs on one
  event loop and every method awaits each step before the next, so one call is a
  sequential state transformer; interleavings of separate calls are not modelled.
\<close>

subsection \<open>Values and errors\<close>

text \<open>Points in time (\<^verbatim>\<open>start_date\<close>, \<^verbatim>\<open>end_date\<close>, SQLite's \<^verbatim>\<open>DATETIME('now')\<close>) are
  integers on one linear time axis.\<close>

type_synonym datetime = int

text \<open>What a call can be rejected with. \<open>ProcessExit n\<close> stands for \<^verbatim>\<open>process.exit(n)\<close>;
  \<open>OpenSSLError\<close> for the error \<^verbatim>\<open>https.createServer\<close> throws on a key or certificate it
  cannot use; \<open>Rejected msg\<close> for the rejection of an external collaborator (DNS agent,
  settings store, date library) whose code is not part of this file.\<close>

datatype error = TypeError | RangeError | ENOENT string | OpenSSLError | ProcessExit nat | Rejected string

text \<open>The values a setting holds, as far as this module looks at them: it only tests them
  for truthiness and copies them into \<^verbatim>\<open>process.env.TZ\<close>. \<open>JNull\<close> stands for both
  \<^verbatim>\<open>null\<close> and \<^verbatim>\<open>undefined\<close>; numbers and objects are left out.\<close>

datatype jsval = JNull | JBool bool | JStr string

fun truthy :: "jsval \<Rightarrow> bool" where
  "truthy JNull = False"
| "truthy (JBool b) = b"
| "truthy (JStr s) = (s \<noteq> [])"

text \<open>\<^verbatim>\<open>String(v)\<close>, the coercion an assignment to \<^verbatim>\<open>process.env.TZ\<close> performs.\<close>

fun js_String :: "jsval \<Rightarrow> string" where
  "js_String JNull = ''null''"
| "js_String (JBool b) = (if b then ''true'' else ''false'')"
| "js_String (JStr s) = s"

subsection \<open>Connections\<close>

text \<open>\<^verbatim>\<open>socket.client.conn.request.headers\<close>, \<^verbatim>\<open>socket.client.conn.remoteAddress\<close> and
  \<^verbatim>\<open>socket.userID\<close>. A header that is absent reads as \<^verbatim>\<open>undefined\<close> (\<open>None\<close>); Node's HTTP
  parser delivers each of the headers read here as one string of code units below 256, which
  is what a \<open>string\<close> of 8-bit characters is.\<close>

record request =
  headers :: "string \<rightharpoonup> string"

record conn =
  request :: request
  remoteAddress :: "string option"

record client =
  conn :: conn

record socket =
  client :: client
  userID :: nat

subsection \<open>Persistent records\<close>

text \<open>A row of table \<^verbatim>\<open>maintenance_timeslot\<close> (columns \<^verbatim>\<open>id\<close>, \<^verbatim>\<open>start_date\<close>, \<^verbatim>\<open>end_date\<close>,
  \<^verbatim>\<open>generated_next\<close>, \<^verbatim>\<open>maintenance_id\<close>) and a row of table \<^verbatim>\<open>maintenance\<close> (columns
  \<^verbatim>\<open>id\<close>, \<^verbatim>\<open>user_id\<close>, \<^verbatim>\<open>title\<close>, \<^verbatim>\<open>end_date\<close>; the other columns are not read here).\<close>

record timeslot =
  ts_id :: nat
  start_date :: datetime
  end_date :: datetime
  generated_next :: bool
  maintenance_id :: nat

record maintenance =
  m_id :: nat
  m_user_id :: nat
  m_title :: string
  m_end_date :: datetime

record db =
  maintenance_timeslot_table :: "timeslot list"
  maintenance_table :: "maintenance list"

subsection \<open>The state a call runs in\<close>

text \<open>
  \<^item> \<open>settings\<close>, \<open>settings_error\<close>: the settings store (see \<open>Settings_get\<close> below);
  \<^item> \<open>env_TZ\<close>: \<^verbatim>\<open>process.env.TZ\<close>;
  \<^item> \<open>dayjs_default\<close>: the zone set by \<^verbatim>\<open>dayjs.tz.setDefault\<close>;
  \<^item> \<open>dayjs_guess\<close>: what \<^verbatim>\<open>dayjs.tz.guess()\<close> returns on this host, as a function of the
    current \<^verbatim>\<open>process.env.TZ\<close> (the guess is the zone the runtime resolves, and the runtime
    follows that variable);
  \<^item> \<open>database\<close>: the tables behind \<^verbatim>\<open>R\<close>;
  \<^item> \<open>generateMaintenanceTimeslotsInterval\<close>: the field of that name, \<open>Some ms\<close> once
    \<^verbatim>\<open>setInterval(_, ms)\<close> has armed the recurring pass;
  \<^item> \<open>emitted\<close>: what \<^verbatim>\<open>this.io.to(room).emit(name, payload)\<close> has sent, oldest first.
\<close>

record world =
  settings :: "string \<rightharpoonup> jsval \<times> string option"
  settings_error :: "error option"
  env_TZ :: "string option"
  dayjs_default :: "string option"
  dayjs_guess :: "string option \<Rightarrow> string"
  database :: db
  generateMaintenanceTimeslotsInterval :: "nat option"
  emitted :: "(nat \<times> string \<times> (nat \<rightharpoonup> string)) list"

subsection \<open>The settings store\<close>

text \<open>Modelled from the spec: class \<^verbatim>\<open>Settings\<close> (\<^verbatim>\<open>./settings\<close>) is not among the sources. The
  spec describes it as "get/set of string-keyed values, namespaced by category": \<open>Settings_get\<close>
  returns the value last set under the key (\<^verbatim>\<open>null\<close> when there is none), \<open>Settings_set\<close>
  stores a value with its category. While the store is unavailable (\<open>settings_error = Some e\<close>)
  both reject with \<open>e\<close> and change nothing.\<close>

definition Settings_get :: "world \<Rightarrow> string \<Rightarrow> error + jsval" where
  "Settings_get w key =
     (case settings_error w of
        Some e \<Rightarrow> Inl e
      | None \<Rightarrow> Inr (case settings w key of None \<Rightarrow> JNull | Some (v, _) \<Rightarrow> v))"

definition Settings_set :: "string \<Rightarrow> jsval \<Rightarrow> string option \<Rightarrow> world \<Rightarrow> error + world" where
  "Settings_set key v category w =
     (case settings_error w of
        Some e \<Rightarrow> Inl e
      | None \<Rightarrow> Inr (w\<lparr>settings := (settings w)(key \<mapsto> (v, category))\<rparr>))"

subsection \<open>ClientIdentity: \<^verbatim>\<open>getClientIP\<close>\<close>

text \<open>\<^verbatim>\<open>a || b\<close> where \<open>a\<close> is a string or \<^verbatim>\<open>undefined\<close>/\<^verbatim>\<open>null\<close>: the empty string is falsy.\<close>

definition js_or :: "string option \<Rightarrow> string option \<Rightarrow> string option" where
  "js_or a b = (case a of None \<Rightarrow> b | Some s \<Rightarrow> if s \<noteq> [] then Some s else b)"

definition js_or_str :: "string option \<Rightarrow> string \<Rightarrow> string" where
  "js_or_str a b = (case a of None \<Rightarrow> b | Some s \<Rightarrow> if s \<noteq> [] then s else b)"

text \<open>\<^verbatim>\<open>s.split(",")[0]\<close>: the part of \<open>s\<close> before its first comma (all of \<open>s\<close> without one).\<close>

definition split_first :: "string \<Rightarrow> string" where
  "split_first s = takeWhile (\<lambda>c. c \<noteq> CHR '','') s"

text \<open>\<^verbatim>\<open>s.trim()\<close>: ECMAScript's white space and line terminators among the code units below
  256 are TAB, LF, VT, FF, CR, SP and NBSP.\<close>

definition is_white_space :: "char \<Rightarrow> bool" where
  "is_white_space c = (c \<in> set [CHR 0x09, CHR 0x0A, CHR 0x0B, CHR 0x0C, CHR 0x0D, CHR 0x20, CHR 0xA0])"

definition trim :: "string \<Rightarrow> string" where
  "trim s = rev (dropWhile is_white_space (rev (dropWhile is_white_space s)))"

text \<open>\<^verbatim>\<open>s.replace(/^.*:/, "")\<close>. The pattern is anchored at the start of the string and \<^verbatim>\<open>.\<close>
  matches any character but a line terminator (LF and CR among the code units below 256), so
  the greedy match is the prefix of the first line up to its last colon; without a colon on
  the first line nothing matches and the string is returned as it is.\<close>

definition is_line_terminator :: "char \<Rightarrow> bool" where
  "is_line_terminator c = (c = CHR 0x0A \<or> c = CHR 0x0D)"

definition replace_colon_prefix :: "string \<Rightarrow> string" where
  "replace_colon_prefix s =
     (let line = takeWhile (\<lambda>c. \<not> is_line_terminator c) s in
      if CHR '':'' \<in> set line
      then rev (takeWhile (\<lambda>c. c \<noteq> CHR '':'') (rev line)) @ dropWhile (\<lambda>c. \<not> is_line_terminator c) s
      else s)"

text \<open>The baseline of \<^verbatim>\<open>getClientIP\<close>:
  \<^verbatim>\<open>headers["cf-connecting-ip"] || remoteAddress\<close>, and \<^verbatim>\<open>""\<close> when that is \<^verbatim>\<open>undefined\<close>.\<close>

definition baselineIP :: "socket \<Rightarrow> string" where
  "baselineIP socket =
     (case js_or (headers (request (conn (client socket))) ''cf-connecting-ip'')
                 (remoteAddress (conn (client socket))) of
        None \<Rightarrow> []
      | Some s \<Rightarrow> s)"

text \<open>\<^verbatim>\<open>typeof forwardedFor === "string" ? forwardedFor.split(",")[0].trim() : null\<close>\<close>

definition forwardedEntry :: "socket \<Rightarrow> string option" where
  "forwardedEntry socket =
     (case headers (request (conn (client socket))) ''x-forwarded-for'' of
        None \<Rightarrow> None
      | Some forwardedFor \<Rightarrow> Some (trim (split_first forwardedFor)))"

definition getClientIP :: "world \<Rightarrow> socket \<Rightarrow> error + string" where
  "getClientIP w socket =
     (let clientIP = baselineIP socket in
      case Settings_get w ''trustProxy'' of
        Inl e \<Rightarrow> Inl e
      | Inr trustProxy \<Rightarrow>
          if truthy trustProxy
          then Inr (js_or_str
                 (js_or (forwardedEntry socket)
                        (headers (request (conn (client socket))) ''x-real-ip''))
                 (replace_colon_prefix clientIP))
          else Inr (replace_colon_prefix clientIP))"

subsection \<open>TimeAuthority: \<^verbatim>\<open>getTimezone\<close>, \<^verbatim>\<open>setTimezone\<close>\<close>

definition getTimezone :: "world \<Rightarrow> error + jsval" where
  "getTimezone w =
     (case Settings_get w ''serverTimezone'' of
        Inl e \<Rightarrow> Inl e
      | Inr timezone \<Rightarrow>
          if truthy timezone then Inr timezone
          else (case env_TZ w of
                  Some tz \<Rightarrow> if tz \<noteq> [] then Inr (JStr tz)
                             else Inr (JStr (dayjs_guess w (env_TZ w)))
                | None \<Rightarrow> Inr (JStr (dayjs_guess w (env_TZ w)))))"

definition setTimezone :: "string \<Rightarrow> world \<Rightarrow> (error + unit) \<times> world" where
  "setTimezone timezone w =
     (case Settings_set ''serverTimezone'' (JStr timezone) (Some ''general'') w of
        Inl e \<Rightarrow> (Inl e, w)
      | Inr w1 \<Rightarrow> (Inr (), w1\<lparr>env_TZ := Some timezone, dayjs_default := Some timezone\<rparr>))"

subsection \<open>The persistence layer\<close>

text \<open>Modelled from the spec: the ORM \<^verbatim>\<open>R\<close> (redbean-node) is not among the sources. The spec
  lists what this module consumes from it: "query-by-predicate over MaintenanceTimeslot
  (\<^verbatim>\<open>generatedNext = false AND start <= now\<close>)" and "record store/update operations". Rows
  come back in table order; a bean's lazy \<^verbatim>\<open>.maintenance\<close> is the row of table
  \<^verbatim>\<open>maintenance\<close> with the bean's \<^verbatim>\<open>maintenance_id\<close>, or \<^verbatim>\<open>null\<close>; storing a bean that has an
  id overwrites the row with that id. I/O failures of \<^verbatim>\<open>R\<close> itself are not modelled.\<close>

text \<open>\<^verbatim>\<open>R.find("maintenance_timeslot", " generated_next = 0 AND start_date <= DATETIME('now') ")\<close>\<close>

definition R_find_due :: "db \<Rightarrow> datetime \<Rightarrow> timeslot list" where
  "R_find_due d now =
     filter (\<lambda>r. \<not> generated_next r \<and> start_date r \<le> now) (maintenance_timeslot_table d)"

text \<open>\<^verbatim>\<open>await maintenanceTimeslot.maintenance\<close>\<close>

definition R_load_maintenance :: "db \<Rightarrow> nat \<Rightarrow> maintenance option" where
  "R_load_maintenance d i = find (\<lambda>m. m_id m = i) (maintenance_table d)"

text \<open>\<^verbatim>\<open>R.store(maintenanceTimeslot)\<close>\<close>

definition R_store :: "db \<Rightarrow> timeslot \<Rightarrow> db" where
  "R_store d bean =
     d\<lparr>maintenance_timeslot_table :=
         map (\<lambda>r. if ts_id r = ts_id bean then bean else r) (maintenance_timeslot_table d)\<rparr>"

subsection \<open>MaintenanceScheduler: \<^verbatim>\<open>generateMaintenanceTimeslots\<close>\<close>

text \<open>\<^verbatim>\<open>MaintenanceTimeslot.generateTimeslot(maintenance, minDate, removeExist)\<close> lives in
  \<^verbatim>\<open>./model/maintenance_timeslot\<close>, which is not among the sources, so the scheduler takes it
  as a parameter: any function from its three arguments and the database to an outcome
  (\<open>None\<close>: resolved, \<open>Some e\<close>: rejected with \<open>e\<close>) and the database it leaves.\<close>

type_synonym roll_forward = "maintenance option \<Rightarrow> datetime \<Rightarrow> bool \<Rightarrow> db \<Rightarrow> error option \<times> db"

text \<open>The body of the \<^verbatim>\<open>for\<close> loop, for one \<^verbatim>\<open>maintenanceTimeslot\<close> of the list.\<close>

definition process_timeslot :: "roll_forward \<Rightarrow> timeslot \<Rightarrow> world \<Rightarrow> (error + unit) \<times> world" where
  "process_timeslot generateTimeslot maintenanceTimeslot w =
     (let maintenance = R_load_maintenance (database w) (maintenance_id maintenanceTimeslot) in
      case generateTimeslot maintenance (end_date maintenanceTimeslot) False (database w) of
        (Some e, d) \<Rightarrow> (Inl e, w\<lparr>database := d\<rparr>)
      | (None, d) \<Rightarrow>
          (let bean = maintenanceTimeslot\<lparr>generated_next := True\<rparr> in
           (Inr (), w\<lparr>database := R_store d bean\<rparr>)))"

text \<open>\<^verbatim>\<open>for (let maintenanceTimeslot of list) { ... }\<close>: an exception leaves the loop and the
  method.\<close>

fun for_each_timeslot :: "roll_forward \<Rightarrow> timeslot list \<Rightarrow> world \<Rightarrow> (error + unit) \<times> world" where
  "for_each_timeslot generateTimeslot [] w = (Inr (), w)"
| "for_each_timeslot generateTimeslot (maintenanceTimeslot # list) w =
     (case process_timeslot generateTimeslot maintenanceTimeslot w of
        (Inl e, w1) \<Rightarrow> (Inl e, w1)
      | (Inr _, w1) \<Rightarrow> for_each_timeslot generateTimeslot list w1)"

definition generateMaintenanceTimeslots :: "roll_forward \<Rightarrow> datetime \<Rightarrow> world \<Rightarrow> (error + unit) \<times> world" where
  "generateMaintenanceTimeslots generateTimeslot now w =
     for_each_timeslot generateTimeslot (R_find_due (database w) now) w"

subsection \<open>The roll-forward routine\<close>

text \<open>Modelled from the spec: \<^verbatim>\<open>MaintenanceTimeslot.generateTimeslot\<close> is not among the sources.
  The spec calls it the roll-forward routine, "the act of computing and persisting the next
  timeslot for a maintenance window", invoked "with the window and the current slot's end
  time to materialize the next slot", and requires it to be "idempotent with respect to
  repeated calls for the same logical next slot" ("idempotent-or-deduplicating").
  So: the next slot's start and end are computed from the window and the previous end time
  by \<open>nextSlot\<close> (a parameter: the recurrence rules are not in the spec); the slot is
  inserted with a fresh id and \<open>generated_next = False\<close> unless the window already has a slot
  with that start and end. A window that could not be loaded (\<^verbatim>\<open>null\<close>) makes the routine
  throw. The spec gives the third argument no meaning and the scheduler always passes
  \<^verbatim>\<open>false\<close>; it is ignored here.\<close>

definition next_id :: "timeslot list \<Rightarrow> nat" where
  "next_id rows = Suc (foldr max (map ts_id rows) 0)"

definition slot_key :: "timeslot \<Rightarrow> nat \<times> datetime \<times> datetime" where
  "slot_key r = (maintenance_id r, start_date r, end_date r)"

definition generateTimeslot_spec :: "(maintenance \<Rightarrow> datetime \<Rightarrow> datetime \<times> datetime) \<Rightarrow> roll_forward" where
  "generateTimeslot_spec nextSlot maintenance minDate removeExist d =
     (case maintenance of
        None \<Rightarrow> (Some TypeError, d)
      | Some m \<Rightarrow>
          (let rows = maintenance_timeslot_table d;
               slot = \<lparr>ts_id = next_id rows,
                       start_date = fst (nextSlot m minDate),
                       end_date = snd (nextSlot m minDate),
                       generated_next = False,
                       maintenance_id = m_id m\<rparr>
           in if slot_key slot \<in> set (map slot_key rows) then (None, d)
              else (None, d\<lparr>maintenance_timeslot_table := rows @ [slot]\<rparr>)))"


subsection \<open>ServerCoordinator: \<^verbatim>\<open>initAfterDatabaseReady\<close>\<close>

text \<open>Two collaborators of \<^verbatim>\<open>initAfterDatabaseReady\<close> are libraries outside this file and are
  taken as parameters: \<open>CacheableDnsHttpAgent_update\<close> is the outcome of
  \<^verbatim>\<open>await CacheableDnsHttpAgent.update()\<close> (\<open>None\<close>: resolved, \<open>Some e\<close>: rejected with \<open>e\<close>; its
  effect on the agent's DNS cache is outside the state modelled here), and \<open>dayjs_tz_format\<close>
  is \<^verbatim>\<open>dayjs.tz().format()\<close> as a function of the default zone, the text of the second
  \<^verbatim>\<open>log.debug\<close> line, which the date library may refuse to compute. The log lines themselves
  are not part of the state. \<^verbatim>\<open>setInterval(f, 60 * 1000)\<close> is modelled by the handle it
  returns; the later firings of the timer are separate calls of the scheduler.\<close>

definition initAfterDatabaseReady ::
  "error option \<Rightarrow> (string option \<Rightarrow> error + string) \<Rightarrow> roll_forward \<Rightarrow> datetime \<Rightarrow> world
     \<Rightarrow> (error + unit) \<times> world" where
  "initAfterDatabaseReady CacheableDnsHttpAgent_update dayjs_tz_format generateTimeslot now w =
     (case CacheableDnsHttpAgent_update of
        Some e \<Rightarrow> (Inl e, w)
      | None \<Rightarrow>
          (case getTimezone w of
             Inl e \<Rightarrow> (Inl e, w)
           | Inr timezone \<Rightarrow>
               (let w1 = w\<lparr>env_TZ := Some (js_String timezone)\<rparr>;
                    w2 = w1\<lparr>dayjs_default := env_TZ w1\<rparr>
                in case dayjs_tz_format (dayjs_default w2) of
                     Inl e \<Rightarrow> (Inl e, w2)
                   | Inr current_time \<Rightarrow>
                       (case generateMaintenanceTimeslots generateTimeslot now w2 of
                          (Inl e, w3) \<Rightarrow> (Inl e, w3)
                        | (Inr u, w3) \<Rightarrow>
                            (Inr (), w3\<lparr>generateMaintenanceTimeslotsInterval := Some 60000\<rparr>)))))"

subsection \<open>ServerCoordinator: the singleton\<close>

text \<open>The fields the constructor computes from its arguments. The opaque handles
  (\<^verbatim>\<open>app\<close>, \<^verbatim>\<open>io\<close>) and the two registries, which start empty, are left out.\<close>

datatype http_server = HTTP | HTTPS string string

record server =
  entryPage :: string
  httpServer :: http_server
  indexHTML :: string

text \<open>What the constructor depends on in its host: \<^verbatim>\<open>process.env\<close>, the files
  \<^verbatim>\<open>fs.readFileSync\<close> can read (a path that is absent makes it throw), and which pairs of
  key and certificate contents the TLS library accepts (\<^verbatim>\<open>https.createServer\<close> throws on a
  pair it cannot use).\<close>

record host =
  env :: "string \<rightharpoonup> string"
  files :: "string \<rightharpoonup> string"
  tls_accepts :: "string \<Rightarrow> string \<Rightarrow> bool"

definition readFileSync :: "host \<Rightarrow> string \<Rightarrow> error + string" where
  "readFileSync h path = (case files h path of None \<Rightarrow> Inl (ENOENT path) | Some content \<Rightarrow> Inr content)"

text \<open>\<^verbatim>\<open>new UptimeKumaServer(args)\<close>; \<open>args = None\<close> is a call without arguments, on which
  \<^verbatim>\<open>args["ssl-key"]\<close> throws.\<close>

definition new_UptimeKumaServer :: "host \<Rightarrow> (string \<rightharpoonup> string) option \<Rightarrow> error + server" where
  "new_UptimeKumaServer h args =
     (case args of
        None \<Rightarrow> Inl TypeError
      | Some a \<Rightarrow>
          (let sslKey = js_or (js_or (js_or (a ''ssl-key'') (env h ''UPTIME_KUMA_SSL_KEY''))
                                     (env h ''SSL_KEY'')) None;
               sslCert = js_or (js_or (js_or (a ''ssl-cert'') (env h ''UPTIME_KUMA_SSL_CERT''))
                                      (env h ''SSL_CERT'')) None;
               created =
                 (case (sslKey, sslCert) of
                    (Some keyPath, Some certPath) \<Rightarrow>
                      (case readFileSync h keyPath of
                         Inl e \<Rightarrow> Inl e
                       | Inr key \<Rightarrow>
                           (case readFileSync h certPath of
                              Inl e \<Rightarrow> Inl e
                            | Inr cert \<Rightarrow>
                                if tls_accepts h key cert then Inr (HTTPS key cert)
                                else Inl OpenSSLError))
                  | _ \<Rightarrow> Inr HTTP)
           in case created of
                Inl e \<Rightarrow> Inl e
              | Inr srv \<Rightarrow>
                  (case readFileSync h ''./dist/index.html'' of
                     Inr html \<Rightarrow> Inr \<lparr>entryPage = ''dashboard'', httpServer = srv, indexHTML = html\<rparr>
                   | Inl e \<Rightarrow>
                       if env h ''NODE_ENV'' \<noteq> Some ''development'' then Inl (ProcessExit 1)
                       else Inr \<lparr>entryPage = ''dashboard'', httpServer = srv, indexHTML = []\<rparr>)))"

text \<open>The static field \<^verbatim>\<open>UptimeKumaServer.instance\<close> holds a reference; the objects live in
  a heap, so that "the same instance" is equality of references.\<close>

record process_state =
  static_instance :: "nat option"
  heap :: "server list"

definition getInstance ::
  "host \<Rightarrow> (string \<rightharpoonup> string) option \<Rightarrow> process_state \<Rightarrow> (error + nat) \<times> process_state" where
  "getInstance h args p =
     (case static_instance p of
        Some r \<Rightarrow> (Inr r, p)
      | None \<Rightarrow>
          (case new_UptimeKumaServer h args of
             Inl e \<Rightarrow> (Inl e, p)
           | Inr obj \<Rightarrow>
               (Inr (length (heap p)),
                p\<lparr>heap := heap p @ [obj], static_instance := Some (length (heap p))\<rparr>)))"

subsection \<open>RealtimeBroadcaster: the maintenance list\<close>

text \<open>\<^verbatim>\<open>R.find("maintenance", " user_id = ? ORDER BY end_date DESC, title", [userID])\<close>: the
  user's rows, latest end date first, then by title in byte order (rows equal in both keep
  their table order).\<close>

definition R_find_maintenance :: "db \<Rightarrow> nat \<Rightarrow> maintenance list" where
  "R_find_maintenance d user =
     sort_key (\<lambda>m. (- m_end_date m, m_title m)) (filter (\<lambda>m. m_user_id m = user) (maintenance_table d))"

text \<open>\<^verbatim>\<open>for (let maintenance of maintenanceList) { result[maintenance.id] = await maintenance.toJSON(); }\<close>
  The serialiser \<^verbatim>\<open>toJSON\<close> belongs to the maintenance model, which is not among the
  sources; it is a parameter that returns the view or rejects.\<close>

fun collect_JSON ::
  "(maintenance \<Rightarrow> error + string) \<Rightarrow> maintenance list \<Rightarrow> (nat \<rightharpoonup> string) \<Rightarrow> error + (nat \<rightharpoonup> string)" where
  "collect_JSON toJSON [] result = Inr result"
| "collect_JSON toJSON (maintenance # maintenanceList) result =
     (case toJSON maintenance of
        Inl e \<Rightarrow> Inl e
      | Inr view \<Rightarrow> collect_JSON toJSON maintenanceList (result(m_id maintenance \<mapsto> view)))"

definition getMaintenanceJSONList ::
  "(maintenance \<Rightarrow> error + string) \<Rightarrow> nat \<Rightarrow> world \<Rightarrow> error + (nat \<rightharpoonup> string)" where
  "getMaintenanceJSONList toJSON user w =
     collect_JSON toJSON (R_find_maintenance (database w) user) Map.empty"

definition sendMaintenanceListByUserID ::
  "(maintenance \<Rightarrow> error + string) \<Rightarrow> nat \<Rightarrow> world \<Rightarrow> (error + (nat \<rightharpoonup> string)) \<times> world" where
  "sendMaintenanceListByUserID toJSON user w =
     (case getMaintenanceJSONList toJSON user w of
        Inl e \<Rightarrow> (Inl e, w)
      | Inr list \<Rightarrow> (Inr list, w\<lparr>emitted := emitted w @ [(user, ''maintenanceList'', list)]\<rparr>))"

definition sendMaintenanceList ::
  "(maintenance \<Rightarrow> error + string) \<Rightarrow> socket \<Rightarrow> world \<Rightarrow> (error + (nat \<rightharpoonup> string)) \<times> world" where
  "sendMaintenanceList toJSON socket w = sendMaintenanceListByUserID toJSON (userID socket) w"

subsection \<open>Concrete states and connections\<close>

definition example_world :: world where
  "example_world =
     \<lparr>settings = Map.empty, settings_error = None, env_TZ = None, dayjs_default = None,
      dayjs_guess = (\<lambda>tz. case tz of None \<Rightarrow> ''UTC'' | Some z \<Rightarrow> if z = [] then ''Etc/Unknown'' else z),
      database = \<lparr>maintenance_timeslot_table = [], maintenance_table = []\<rparr>,
      generateMaintenanceTimeslotsInterval = None, emitted = []\<rparr>"

definition trusting_world :: world where
  "trusting_world = example_world\<lparr>settings := [''trustProxy'' \<mapsto> (JBool True, Some ''general'')]\<rparr>"

definition mk_socket :: "(string \<times> string) list \<Rightarrow> string option \<Rightarrow> socket" where
  "mk_socket hs addr =
     \<lparr>client = \<lparr>conn = \<lparr>request = \<lparr>headers = map_of hs\<rparr>, remoteAddress = addr\<rparr>\<rparr>, userID = 1\<rparr>"

definition socket_forwarded :: socket where
  "socket_forwarded = mk_socket [(''x-forwarded-for'', ''1.2.3.4, 5.6.7.8''), (''x-real-ip'', ''9.9.9.9'')] (Some ''::ffff:10.0.0.1'')"
definition socket_real_ip :: socket where
  "socket_real_ip = mk_socket [(''x-forwarded-for'', '' , 5.6.7.8''), (''x-real-ip'', ''9.9.9.9'')] (Some ''::ffff:10.0.0.1'')"
definition socket_direct :: socket where
  "socket_direct = mk_socket [] (Some ''::ffff:10.0.0.1'')"
definition socket_silent :: socket where
  "socket_silent = mk_socket [(''x-forwarded-for'', ''1.2.3.4'')] None"
definition socket_cloudflare :: socket where
  "socket_cloudflare = mk_socket [(''cf-connecting-ip'', ''203.0.113.9'')] (Some ''::ffff:10.0.0.1'')"
definition socket_empty :: socket where
  "socket_empty = mk_socket [] None"
definition socket_v6 :: socket where
  "socket_v6 = mk_socket [(''x-forwarded-for'', ''2001:db8::1'')] (Some ''::ffff:10.0.0.1'')"


text \<open>A database with one maintenance window and three due slots; the second slot refers
  to a window that does not exist.\<close>

definition window1 :: maintenance where
  "window1 = \<lparr>m_id = 1, m_user_id = 1, m_title = ''db upgrade'', m_end_date = 100\<rparr>"

definition slot1 :: timeslot where
  "slot1 = \<lparr>ts_id = 1, start_date = 0, end_date = 10, generated_next = False, maintenance_id = 1\<rparr>"

definition slot2 :: timeslot where
  "slot2 = \<lparr>ts_id = 2, start_date = 5, end_date = 15, generated_next = False, maintenance_id = 7\<rparr>"

definition slot3 :: timeslot where
  "slot3 = \<lparr>ts_id = 3, start_date = 6, end_date = 20, generated_next = False, maintenance_id = 1\<rparr>"

definition weekly :: "maintenance \<Rightarrow> datetime \<Rightarrow> datetime \<times> datetime" where
  "weekly m minDate = (minDate + 604800, minDate + 608400)"

definition sound_world :: world where
  "sound_world = example_world\<lparr>database :=
     \<lparr>maintenance_timeslot_table = [slot1, slot3], maintenance_table = [window1]\<rparr>\<rparr>"

definition dangling_world :: world where
  "dangling_world = example_world\<lparr>database :=
     \<lparr>maintenance_timeslot_table = [slot1, slot2, slot3], maintenance_table = [window1]\<rparr>\<rparr>"

definition broken_settings_world :: world where
  "broken_settings_world = sound_world\<lparr>settings_error := Some (Rejected ''database is locked'')\<rparr>"

definition format_ok :: "string option \<Rightarrow> error + string" where
  "format_ok zone = Inr ''2022-10-11T12:00:00+00:00''"

text \<open>A stored zone name the date library does not know, and a formatter that, like
  \<^verbatim>\<open>dayjs.tz().format()\<close>, throws a \<^verbatim>\<open>RangeError\<close> for such a default zone.\<close>

definition bad_zone_world :: world where
  "bad_zone_world = sound_world\<lparr>settings := [''serverTimezone'' \<mapsto> (JStr ''Mars/Phobos'', Some ''general'')]\<rparr>"

definition format_iana :: "string option \<Rightarrow> error + string" where
  "format_iana zone = (if zone = Some ''UTC'' then Inr ''1970-01-01T00:00:50+00:00'' else Inl RangeError)"

definition window2 :: maintenance where
  "window2 = \<lparr>m_id = 2, m_user_id = 1, m_title = ''cache flush'', m_end_date = 200\<rparr>"

definition window3 :: maintenance where
  "window3 = \<lparr>m_id = 3, m_user_id = 2, m_title = ''other user'', m_end_date = 300\<rparr>"

definition listing_world :: world where
  "listing_world = example_world\<lparr>database :=
     \<lparr>maintenance_timeslot_table = [], maintenance_table = [window1, window2, window3]\<rparr>\<rparr>"

definition title_view :: "maintenance \<Rightarrow> error + string" where
  "title_view m = Inr (m_title m)"

definition plain_host :: host where
  "plain_host = \<lparr>env = Map.empty, files = [''./dist/index.html'' \<mapsto> ''<html></html>''],
                 tls_accepts = (\<lambda>key cert. False)\<rparr>"

definition fresh_process :: process_state where
  "fresh_process = \<lparr>static_instance = None, heap = []\<rparr>"

section \<open>ClientIdentity\<close>

lemma Settings_get_trusting: "Settings_get trusting_world ''trustProxy'' = Inr (JBool True)"
  by (simp add: Settings_get_def trusting_world_def example_world_def)

lemma replace_colon_prefix_spec:
  assumes "\<forall>c\<in>set s. \<not> is_line_terminator c"
  shows "\<exists>p. s = p @ replace_colon_prefix s \<and> CHR '':'' \<notin> set (replace_colon_prefix s)
           \<and> (p = [] \<or> last p = CHR '':'')"
proof (cases "CHR '':'' \<in> set s")
  case False
  have line: "takeWhile (\<lambda>c. \<not> is_line_terminator c) s = s"
    using assms by simp
  show ?thesis using False by (simp add: replace_colon_prefix_def Let_def line)
next
  case True
  let ?P = "\<lambda>c. c \<noteq> CHR '':''"
  have line: "takeWhile (\<lambda>c. \<not> is_line_terminator c) s = s"
    using assms by simp
  have rest: "dropWhile (\<lambda>c. \<not> is_line_terminator c) s = []"
    using assms by simp
  have r: "replace_colon_prefix s = rev (takeWhile ?P (rev s))"
    using True by (simp add: replace_colon_prefix_def Let_def line rest)
  have ne: "dropWhile ?P (rev s) \<noteq> []" using True by simp
  have "rev s = takeWhile ?P (rev s) @ dropWhile ?P (rev s)" by simp
  then have "rev (rev s) = rev (takeWhile ?P (rev s) @ dropWhile ?P (rev s))" by (rule arg_cong)
  then have split: "s = rev (dropWhile ?P (rev s)) @ replace_colon_prefix s"
    unfolding r by (simp only: rev_append rev_rev_ident)
  have l: "last (rev (dropWhile ?P (rev s))) = hd (dropWhile ?P (rev s))"
    using ne by (simp only: last_rev)
  have h: "hd (dropWhile ?P (rev s)) = CHR '':''"
    using ne hd_dropWhile[of ?P "rev s"] by blast
  have n: "CHR '':'' \<notin> set (replace_colon_prefix s)"
    unfolding r using set_takeWhileD[of "CHR '':''" ?P "rev s"] by auto
  show ?thesis using split l h n by metis
qed


lemma Settings_get_example: "Settings_get example_world ''trustProxy'' = Inr JNull"
  by (simp add: Settings_get_def example_world_def)

lemma getClientIP_cases:
  assumes "Settings_get w ''trustProxy'' = Inr v"
  shows "getClientIP w socket =
           Inr (if truthy v
                then js_or_str (js_or (forwardedEntry socket)
                                      (headers (request (conn (client socket))) ''x-real-ip''))
                               (replace_colon_prefix (baselineIP socket))
                else replace_colon_prefix (baselineIP socket))"
  using assms by (simp add: getClientIP_def Let_def)

lemma trim_split_example: "trim (split_first ''1.2.3.4, 5.6.7.8'') = ''1.2.3.4''"
  by (simp add: trim_def split_first_def is_white_space_def)

lemma baselineIP_cases:
  "(\<forall>c. headers (request (conn (client socket))) ''cf-connecting-ip'' = Some c \<and> c \<noteq> []
        \<longrightarrow> baselineIP socket = c)
   \<and> ((headers (request (conn (client socket))) ''cf-connecting-ip'' = None
        \<or> headers (request (conn (client socket))) ''cf-connecting-ip'' = Some [])
       \<longrightarrow> (\<forall>a. remoteAddress (conn (client socket)) = Some a \<longrightarrow> baselineIP socket = a)
         \<and> (remoteAddress (conn (client socket)) = None \<longrightarrow> baselineIP socket = []))"
  by (auto simp: baselineIP_def js_or_def)

lemma replace_colon_prefix_Nil: "replace_colon_prefix [] = []"
  by (simp add: replace_colon_prefix_def)

text \<open>Claim C3. With a truthy \<^verbatim>\<open>trustProxy\<close> setting and \<open>hs\<close> the request headers,
  \<open>getClientIP\<close> returns, in this order of preference:
  the first comma-separated entry of \<^verbatim>\<open>x-forwarded-for\<close>, trimmed, when that is a non-empty
  string; else the \<^verbatim>\<open>x-real-ip\<close> header when that is non-empty; else the baseline, which is
  the \<^verbatim>\<open>cf-connecting-ip\<close> header when that is non-empty, else the remote address, else the
  empty string, and which this last branch passes through \<^verbatim>\<open>replace(/^.*:/, "")\<close>.
  With \<^verbatim>\<open>x-forwarded-for: 1.2.3.4, 5.6.7.8\<close> the result is \<^verbatim>\<open>1.2.3.4\<close>, whatever the other
  headers are.\<close>

theorem getClientIP_trustProxy:
  assumes "Settings_get w ''trustProxy'' = Inr v" and "truthy v"
      and hs: "hs = headers (request (conn (client socket)))"
      and addr: "addr = remoteAddress (conn (client socket))"
  shows "(\<forall>ff. hs ''x-forwarded-for'' = Some ff \<and> trim (split_first ff) \<noteq> []
            \<longrightarrow> getClientIP w socket = Inr (trim (split_first ff)))
       \<and> ((hs ''x-forwarded-for'' = None
             \<or> (\<exists>ff. hs ''x-forwarded-for'' = Some ff \<and> trim (split_first ff) = []))
            \<longrightarrow>
              (\<forall>r. hs ''x-real-ip'' = Some r \<and> r \<noteq> [] \<longrightarrow> getClientIP w socket = Inr r)
            \<and> ((hs ''x-real-ip'' = None \<or> hs ''x-real-ip'' = Some [])
                 \<longrightarrow>
                   (\<forall>c. hs ''cf-connecting-ip'' = Some c \<and> c \<noteq> []
                        \<longrightarrow> getClientIP w socket = Inr (replace_colon_prefix c))
                 \<and> ((hs ''cf-connecting-ip'' = None \<or> hs ''cf-connecting-ip'' = Some [])
                      \<longrightarrow>
                        (\<forall>a. addr = Some a \<longrightarrow> getClientIP w socket = Inr (replace_colon_prefix a))
                      \<and> (addr = None \<longrightarrow> getClientIP w socket = Inr []))))
       \<and> (hs ''x-forwarded-for'' = Some ''1.2.3.4, 5.6.7.8''
            \<longrightarrow> getClientIP w socket = Inr ''1.2.3.4'')"
proof -
  note r = getClientIP_cases [OF assms(1), of socket]
  note b = baselineIP_cases [of socket]
  have 1: "\<forall>ff. hs ''x-forwarded-for'' = Some ff \<and> trim (split_first ff) \<noteq> []
            \<longrightarrow> getClientIP w socket = Inr (trim (split_first ff))"
    using assms(2) by (simp add: r hs forwardedEntry_def js_or_def js_or_str_def)
  have fwd: "js_or (forwardedEntry socket) x = x"
    if "hs ''x-forwarded-for'' = None
          \<or> (\<exists>ff. hs ''x-forwarded-for'' = Some ff \<and> trim (split_first ff) = [])" for x
    using that by (auto simp: hs forwardedEntry_def js_or_def)
  have 2: "(hs ''x-forwarded-for'' = None
             \<or> (\<exists>ff. hs ''x-forwarded-for'' = Some ff \<and> trim (split_first ff) = []))
            \<longrightarrow>
              (\<forall>r. hs ''x-real-ip'' = Some r \<and> r \<noteq> [] \<longrightarrow> getClientIP w socket = Inr r)
            \<and> ((hs ''x-real-ip'' = None \<or> hs ''x-real-ip'' = Some [])
                 \<longrightarrow>
                   (\<forall>c. hs ''cf-connecting-ip'' = Some c \<and> c \<noteq> []
                        \<longrightarrow> getClientIP w socket = Inr (replace_colon_prefix c))
                 \<and> ((hs ''cf-connecting-ip'' = None \<or> hs ''cf-connecting-ip'' = Some [])
                      \<longrightarrow>
                        (\<forall>a. addr = Some a \<longrightarrow> getClientIP w socket = Inr (replace_colon_prefix a))
                      \<and> (addr = None \<longrightarrow> getClientIP w socket = Inr [])))"
  proof (intro impI conjI allI)
    assume n: "hs ''x-forwarded-for'' = None
                 \<or> (\<exists>ff. hs ''x-forwarded-for'' = Some ff \<and> trim (split_first ff) = [])"
    note f = fwd [OF n]
    {
      fix x assume "hs ''x-real-ip'' = Some x \<and> x \<noteq> []"
      then show "getClientIP w socket = Inr x"
        using assms(2) by (simp add: r f hs [symmetric] js_or_str_def)
    next
      assume nr: "hs ''x-real-ip'' = None \<or> hs ''x-real-ip'' = Some []"
      then have res: "getClientIP w socket = Inr (replace_colon_prefix (baselineIP socket))"
        using assms(2) by (auto simp: r f hs [symmetric] js_or_str_def)
      {
        fix c assume "hs ''cf-connecting-ip'' = Some c \<and> c \<noteq> []"
        then have "baselineIP socket = c" using b by (auto simp: hs)
        then show "getClientIP w socket = Inr (replace_colon_prefix c)" using res by simp
      next
        assume nc: "hs ''cf-connecting-ip'' = None \<or> hs ''cf-connecting-ip'' = Some []"
        {
          fix a assume "addr = Some a"
          then have "baselineIP socket = a" using b nc by (auto simp: hs addr)
          then show "getClientIP w socket = Inr (replace_colon_prefix a)" using res by simp
        next
          assume "addr = None"
          then have "baselineIP socket = []" using b nc by (auto simp: hs addr)
          then show "getClientIP w socket = Inr []"
            using res by (simp add: replace_colon_prefix_Nil)
        }
      }
    }
  qed
  have 3: "hs ''x-forwarded-for'' = Some ''1.2.3.4, 5.6.7.8''
            \<longrightarrow> getClientIP w socket = Inr ''1.2.3.4''"
  proof
    assume x: "hs ''x-forwarded-for'' = Some ''1.2.3.4, 5.6.7.8''"
    have "trim (split_first ''1.2.3.4, 5.6.7.8'') \<noteq> []" by (simp add: trim_split_example)
    with 1 x have "getClientIP w socket = Inr (trim (split_first ''1.2.3.4, 5.6.7.8''))" by blast
    then show "getClientIP w socket = Inr ''1.2.3.4''" by (simp only: trim_split_example)
  qed
  from 1 2 3 show ?thesis by (intro conjI)
qed


lemmas socket_eval =
  socket_forwarded_def socket_real_ip_def socket_direct_def socket_silent_def socket_cloudflare_def
  socket_empty_def socket_v6_def mk_socket_def trim_def split_first_def is_white_space_def
  replace_colon_prefix_def is_line_terminator_def

theorem getClientIP_trustProxy_witness:
  "getClientIP trusting_world socket_forwarded = Inr ''1.2.3.4''
   \<and> getClientIP trusting_world socket_real_ip = Inr ''9.9.9.9''
   \<and> getClientIP trusting_world socket_cloudflare = Inr ''203.0.113.9''
   \<and> getClientIP trusting_world socket_direct = Inr ''10.0.0.1''
   \<and> getClientIP trusting_world socket_empty = Inr []"
proof -
  have t: "truthy (JBool True)" by simp
  note T = getClientIP_trustProxy [OF Settings_get_trusting t refl refl]
  have 1: "getClientIP trusting_world socket_forwarded = Inr ''1.2.3.4''"
    using T [of socket_forwarded] by (simp add: socket_eval)
  have 2: "getClientIP trusting_world socket_real_ip = Inr ''9.9.9.9''"
    using T [of socket_real_ip] by (simp add: socket_eval)
  have 3: "getClientIP trusting_world socket_cloudflare = Inr ''203.0.113.9''"
    using T [of socket_cloudflare] by (simp add: socket_eval)
  have 4: "getClientIP trusting_world socket_direct = Inr ''10.0.0.1''"
    using T [of socket_direct] by (simp add: socket_eval)
  have 5: "getClientIP trusting_world socket_empty = Inr []"
    using T [of socket_empty] by (simp add: socket_eval)
  show ?thesis using 1 2 3 4 5 by (intro conjI)
qed

text \<open>Claim C4. With a falsy \<^verbatim>\<open>trustProxy\<close> setting, \<open>getClientIP\<close> returns a string (it does
  not throw): the \<^verbatim>\<open>cf-connecting-ip\<close> header when that is non-empty, else the remote address,
  each after \<^verbatim>\<open>replace(/^.*:/, "")\<close>, and the empty string when there is neither. The result
  is the same for any two connections that agree on the \<^verbatim>\<open>cf-connecting-ip\<close> header and the
  remote address, so \<^verbatim>\<open>x-forwarded-for\<close> and \<^verbatim>\<open>x-real-ip\<close> are ignored.\<close>

theorem getClientIP_no_trustProxy:
  assumes "Settings_get w ''trustProxy'' = Inr v" and "\<not> truthy v"
      and hs: "hs = headers (request (conn (client socket)))"
      and addr: "addr = remoteAddress (conn (client socket))"
  shows "(\<forall>c. hs ''cf-connecting-ip'' = Some c \<and> c \<noteq> []
            \<longrightarrow> getClientIP w socket = Inr (replace_colon_prefix c))
       \<and> ((hs ''cf-connecting-ip'' = None \<or> hs ''cf-connecting-ip'' = Some [])
            \<longrightarrow> (\<forall>a. addr = Some a \<longrightarrow> getClientIP w socket = Inr (replace_colon_prefix a))
              \<and> (addr = None \<longrightarrow> getClientIP w socket = Inr []))
       \<and> (\<forall>other. headers (request (conn (client other))) ''cf-connecting-ip'' = hs ''cf-connecting-ip''
                 \<and> remoteAddress (conn (client other)) = addr
               \<longrightarrow> getClientIP w other = getClientIP w socket)
       \<and> (\<exists>ip. getClientIP w socket = Inr ip)"
proof -
  have res: "getClientIP w s = Inr (replace_colon_prefix (baselineIP s))" for s
    using assms(1,2) by (simp add: getClientIP_cases)
  note b = baselineIP_cases [of socket]
  have 1: "\<forall>c. hs ''cf-connecting-ip'' = Some c \<and> c \<noteq> []
            \<longrightarrow> getClientIP w socket = Inr (replace_colon_prefix c)"
    using b by (auto simp: res hs)
  have 2: "(hs ''cf-connecting-ip'' = None \<or> hs ''cf-connecting-ip'' = Some [])
            \<longrightarrow> (\<forall>a. addr = Some a \<longrightarrow> getClientIP w socket = Inr (replace_colon_prefix a))
              \<and> (addr = None \<longrightarrow> getClientIP w socket = Inr [])"
    using b by (auto simp: res hs addr replace_colon_prefix_Nil)
  have 3: "\<forall>other. headers (request (conn (client other))) ''cf-connecting-ip'' = hs ''cf-connecting-ip''
                 \<and> remoteAddress (conn (client other)) = addr
               \<longrightarrow> getClientIP w other = getClientIP w socket"
  proof (intro allI impI)
    fix other :: socket
    assume "headers (request (conn (client other))) ''cf-connecting-ip'' = hs ''cf-connecting-ip''
            \<and> remoteAddress (conn (client other)) = addr"
    then have "baselineIP other = baselineIP socket"
      by (simp add: baselineIP_def hs addr)
    then show "getClientIP w other = getClientIP w socket" by (simp add: res)
  qed
  have 4: "\<exists>ip. getClientIP w socket = Inr ip" by (simp add: res)
  from 1 2 3 4 show ?thesis by (intro conjI)
qed

theorem getClientIP_no_trustProxy_witness:
  "getClientIP example_world socket_cloudflare = Inr ''203.0.113.9''
   \<and> getClientIP example_world socket_forwarded = Inr ''10.0.0.1''
   \<and> getClientIP example_world socket_direct = getClientIP example_world socket_forwarded
   \<and> getClientIP example_world socket_silent = Inr []"
proof -
  have f: "\<not> truthy JNull" by simp
  note T = getClientIP_no_trustProxy [OF Settings_get_example f refl refl]
  have 1: "getClientIP example_world socket_cloudflare = Inr ''203.0.113.9''"
    using T [of socket_cloudflare, THEN conjunct1] by (simp add: socket_eval)
  have 2: "getClientIP example_world socket_forwarded = Inr ''10.0.0.1''"
    using T [of socket_forwarded, THEN conjunct2, THEN conjunct1] by (simp add: socket_eval)
  have same: "headers (request (conn (client socket_direct))) ''cf-connecting-ip''
                = headers (request (conn (client socket_forwarded))) ''cf-connecting-ip''
              \<and> remoteAddress (conn (client socket_direct)) = remoteAddress (conn (client socket_forwarded))"
    by (simp add: socket_eval)
  have 3: "getClientIP example_world socket_direct = getClientIP example_world socket_forwarded"
    using T [of socket_forwarded, THEN conjunct2, THEN conjunct2, THEN conjunct1, rule_format, OF same] .
  have 4: "getClientIP example_world socket_silent = Inr []"
    using T [of socket_silent, THEN conjunct2, THEN conjunct1] by (simp add: socket_eval)
  show ?thesis using 1 2 3 4 by (intro conjI)
qed

text \<open>Claim C5, as stated, fails: the colon prefix is not removed from every source. With
  \<^verbatim>\<open>trustProxy\<close> on and \<^verbatim>\<open>x-forwarded-for: 2001:db8::1\<close> the call returns
  \<^verbatim>\<open>2001:db8::1\<close> unchanged, where the replacement would have left \<^verbatim>\<open>1\<close>.\<close>

theorem getClientIP_strips_every_source_counterexample:
  "Settings_get trusting_world ''trustProxy'' = Inr (JBool True)
   \<and> headers (request (conn (client socket_v6))) ''x-forwarded-for'' = Some ''2001:db8::1''
   \<and> getClientIP trusting_world socket_v6 = Inr ''2001:db8::1''
   \<and> replace_colon_prefix ''2001:db8::1'' = ''1''"
  by (simp add: getClientIP_def Settings_get_def trusting_world_def example_world_def
                socket_v6_def mk_socket_def forwardedEntry_def js_or_def js_or_str_def
                trim_def split_first_def is_white_space_def
                replace_colon_prefix_def is_line_terminator_def)

text \<open>Claim C5, amended. \<^verbatim>\<open>replace(/^.*:/, "")\<close> is applied to the baseline only. With a
  truthy \<^verbatim>\<open>trustProxy\<close> a non-empty first \<^verbatim>\<open>x-forwarded-for\<close> entry, and else a non-empty
  \<^verbatim>\<open>x-real-ip\<close>, is returned as it is; in every other case the result is the baseline after
  the replacement. On a baseline without line terminators the replacement removes exactly
  the prefix up to and including the last colon.\<close>

theorem getClientIP_strips_baseline_only:
  assumes "Settings_get w ''trustProxy'' = Inr v"
  shows "getClientIP w socket =
           Inr (js_or_str
                  (if truthy v
                   then js_or (forwardedEntry socket)
                              (headers (request (conn (client socket))) ''x-real-ip'')
                   else None)
                  (replace_colon_prefix (baselineIP socket)))
       \<and> ((\<forall>c\<in>set (baselineIP socket). \<not> is_line_terminator c) \<longrightarrow>
            (\<exists>p. baselineIP socket = p @ replace_colon_prefix (baselineIP socket)
                 \<and> CHR '':'' \<notin> set (replace_colon_prefix (baselineIP socket))
                 \<and> (p = [] \<or> last p = CHR '':'')))"
  using assms replace_colon_prefix_spec [of "baselineIP socket"]
  by (simp add: getClientIP_cases js_or_str_def)

theorem getClientIP_strips_baseline_only_witness:
  "getClientIP trusting_world socket_v6 = Inr ''2001:db8::1''
   \<and> getClientIP example_world socket_v6 = Inr ''10.0.0.1''
   \<and> (\<exists>p. ''::ffff:10.0.0.1'' = p @ ''10.0.0.1'' \<and> CHR '':'' \<notin> set ''10.0.0.1''
          \<and> (p = [] \<or> last p = CHR '':''))"
proof -
  have b: "baselineIP socket_v6 = ''::ffff:10.0.0.1''"
    by (simp add: socket_v6_def mk_socket_def baselineIP_def js_or_def)
  have r: "replace_colon_prefix ''::ffff:10.0.0.1'' = ''10.0.0.1''"
    by (simp add: replace_colon_prefix_def is_line_terminator_def)
  have l: "\<forall>c\<in>set (baselineIP socket_v6). \<not> is_line_terminator c"
    unfolding b by (simp add: is_line_terminator_def)
  have e: "js_or (forwardedEntry socket_v6) (headers (request (conn (client socket_v6))) ''x-real-ip'')
             = Some ''2001:db8::1''"
    by (simp add: socket_v6_def mk_socket_def forwardedEntry_def js_or_def
                  trim_def split_first_def is_white_space_def)
  have t: "truthy (JBool True)" and f: "\<not> truthy JNull" by simp_all
  have 1: "getClientIP trusting_world socket_v6 = Inr ''2001:db8::1''"
    using getClientIP_strips_baseline_only [OF Settings_get_trusting, of socket_v6, THEN conjunct1]
    by (simp only: t e if_True js_or_str_def option.case) simp
  have 2: "getClientIP example_world socket_v6 = Inr ''10.0.0.1''"
    using getClientIP_strips_baseline_only [OF Settings_get_example, of socket_v6, THEN conjunct1]
    by (simp only: f if_False js_or_str_def option.case b r)
  have "\<exists>p. baselineIP socket_v6 = p @ replace_colon_prefix (baselineIP socket_v6)
            \<and> CHR '':'' \<notin> set (replace_colon_prefix (baselineIP socket_v6))
            \<and> (p = [] \<or> last p = CHR '':'')"
    using getClientIP_strips_baseline_only [OF Settings_get_example, of socket_v6, THEN conjunct2] l
    by (rule mp)
  then have 3: "\<exists>p. ''::ffff:10.0.0.1'' = p @ ''10.0.0.1'' \<and> CHR '':'' \<notin> set ''10.0.0.1''
          \<and> (p = [] \<or> last p = CHR '':'')"
    by (simp only: b r)
  show ?thesis using 1 2 3 by (intro conjI)
qed

section \<open>TimeAuthority\<close>

text \<open>Claim C6. When \<open>setTimezone tz\<close> returns, the settings store holds \<open>tz\<close> under
  \<^verbatim>\<open>serverTimezone\<close> in category \<^verbatim>\<open>general\<close>, \<^verbatim>\<open>process.env.TZ\<close> is \<open>tz\<close> and the date
  library's default zone is \<open>tz\<close>; and for a timezone name, which is a non-empty string,
  \<open>getTimezone\<close> in that state returns \<open>tz\<close>. (\<open>getTimezone\<close> tests the stored value for
  truthiness, so the empty string, which names no zone, is the one string it does not
  return.)\<close>

theorem setTimezone_applies_all:
  assumes "setTimezone tz w = (Inr (), w')"
  shows "settings w' ''serverTimezone'' = Some (JStr tz, Some ''general'')
       \<and> env_TZ w' = Some tz
       \<and> dayjs_default w' = Some tz
       \<and> (tz \<noteq> [] \<longrightarrow> getTimezone w' = Inr (JStr tz))"
  using assms
  by (auto simp: setTimezone_def Settings_set_def getTimezone_def Settings_get_def
           split: option.splits)

theorem setTimezone_applies_all_witness:
  "fst (setTimezone ''Europe/London'' example_world) = Inr ()
   \<and> settings (snd (setTimezone ''Europe/London'' example_world)) ''serverTimezone''
       = Some (JStr ''Europe/London'', Some ''general'')
   \<and> env_TZ (snd (setTimezone ''Europe/London'' example_world)) = Some ''Europe/London''
   \<and> dayjs_default (snd (setTimezone ''Europe/London'' example_world)) = Some ''Europe/London''
   \<and> getTimezone (snd (setTimezone ''Europe/London'' example_world)) = Inr (JStr ''Europe/London'')"
proof -
  have ok: "fst (setTimezone ''Europe/London'' example_world) = Inr ()"
    by (simp add: setTimezone_def Settings_set_def example_world_def)
  then have run: "setTimezone ''Europe/London'' example_world
                    = (Inr (), snd (setTimezone ''Europe/London'' example_world))"
    by (metis prod.collapse)
  show ?thesis using setTimezone_applies_all [OF run] ok by simp
qed

section \<open>MaintenanceScheduler\<close>

lemma R_store_ids:
  "map ts_id (maintenance_timeslot_table (R_store d b)) = map ts_id (maintenance_timeslot_table d)"
proof -
  have "map ts_id (map (\<lambda>r. if ts_id r = ts_id b then b else r) xs) = map ts_id xs" for xs
    by (induction xs) auto
  then show ?thesis by (simp add: R_store_def)
qed

lemma R_store_mem:
  assumes "t \<in> set (maintenance_timeslot_table d)" and "ts_id b = ts_id t"
  shows "b \<in> set (maintenance_timeslot_table (R_store d b))"
  using assms by (auto simp: R_store_def image_iff intro!: bexI [of _ t])

lemma R_store_other:
  assumes "row \<in> set (maintenance_timeslot_table d)" and "ts_id row \<noteq> ts_id b"
  shows "row \<in> set (maintenance_timeslot_table (R_store d b))"
  using assms by (auto simp: R_store_def image_iff intro!: bexI [of _ row])

lemma R_store_maintenance_table:
  "maintenance_table (R_store d b) = maintenance_table d"
  by (simp add: R_store_def)

text \<open>One iteration, in terms of the roll-forward's own outcome.\<close>

lemma process_timeslot_cases:
  assumes "g (R_load_maintenance (database w) (maintenance_id ts)) (end_date ts) False (database w) = (out, d)"
  shows "process_timeslot g ts w =
           (case out of
              None \<Rightarrow> (Inr (), w\<lparr>database := R_store d (ts\<lparr>generated_next := True\<rparr>)\<rparr>)
            | Some e \<Rightarrow> (Inl e, w\<lparr>database := d\<rparr>))"
  using assms by (simp add: process_timeslot_def Let_def split: option.splits)

lemma for_each_timeslot_append:
  "for_each_timeslot g (xs @ ys) w =
     (case for_each_timeslot g xs w of
        (Inl e, w1) \<Rightarrow> (Inl e, w1)
      | (Inr u, w1) \<Rightarrow> for_each_timeslot g ys w1)"
  by (induction xs arbitrary: w) (auto split: prod.splits sum.splits)

lemma for_each_timeslot_run:
  assumes "for_each_timeslot g list w = (r, w')"
  shows "\<exists>n ds. n \<le> length list \<and> length ds = Suc n \<and> ds ! 0 = database w
      \<and> (\<forall>i<n. fst (g (R_load_maintenance (ds ! i) (maintenance_id (list ! i)))
                          (end_date (list ! i)) False (ds ! i)) = None
               \<and> ds ! Suc i = R_store (snd (g (R_load_maintenance (ds ! i) (maintenance_id (list ! i)))
                                                (end_date (list ! i)) False (ds ! i)))
                                        ((list ! i)\<lparr>generated_next := True\<rparr>))
      \<and> (case r of
            Inr u \<Rightarrow> n = length list \<and> database w' = ds ! n
          | Inl e \<Rightarrow> n < length list
                     \<and> g (R_load_maintenance (ds ! n) (maintenance_id (list ! n)))
                          (end_date (list ! n)) False (ds ! n) = (Some e, database w'))
      \<and> w' = w\<lparr>database := database w'\<rparr>
      \<and> for_each_timeslot g (take n list) w = (Inr (), w\<lparr>database := ds ! n\<rparr>)
      \<and> ((\<forall>m e f d. set (maintenance_timeslot_table d) \<subseteq> set (maintenance_timeslot_table (snd (g m e f d))))
           \<and> (\<forall>m e f d. distinct (map ts_id (maintenance_timeslot_table d))
                 \<longrightarrow> distinct (map ts_id (maintenance_timeslot_table (snd (g m e f d)))))
           \<and> distinct (map ts_id (maintenance_timeslot_table (database w)))
           \<and> set list \<subseteq> set (maintenance_timeslot_table (database w))
           \<and> distinct (map ts_id list)
          \<longrightarrow> distinct (map ts_id (maintenance_timeslot_table (database w')))
            \<and> (\<forall>t\<in>set (take n list). t\<lparr>generated_next := True\<rparr> \<in> set (maintenance_timeslot_table (database w')))
            \<and> (\<forall>t\<in>set (drop n list). t \<in> set (maintenance_timeslot_table (database w')))
            \<and> (\<forall>row\<in>set (maintenance_timeslot_table (database w)).
                  ts_id row \<notin> ts_id ` set list \<longrightarrow> row \<in> set (maintenance_timeslot_table (database w'))))"
  using assms
proof (induction list arbitrary: w)
  case Nil
  then have "r = Inr ()" "w' = w" by simp_all
  then show ?case
    by (intro exI [of _ 0] exI [of _ "[database w]"]) simp
next
  case (Cons t list)
  let ?tbl = "\<lambda>d. maintenance_timeslot_table d"
  let ?call = "g (R_load_maintenance (database w) (maintenance_id t)) (end_date t) False (database w)"
  let ?keeps = "\<forall>m e f d. set (?tbl d) \<subseteq> set (?tbl (snd (g m e f d)))"
  let ?uniq = "\<forall>m e f d. distinct (map ts_id (?tbl d)) \<longrightarrow> distinct (map ts_id (?tbl (snd (g m e f d))))"
  obtain out d where call: "?call = (out, d)" by (cases ?call)
  note step = process_timeslot_cases [where g = g and w = w and ts = t, OF call]
  show ?case
  proof (cases out)
    case (Some e)
    with Cons.prems step have res: "r = Inl e" "w' = w\<lparr>database := d\<rparr>" by simp_all
    have rows: "distinct (map ts_id (?tbl d))
                \<and> (\<forall>x\<in>set (t # list). x \<in> set (?tbl d))
                \<and> (\<forall>row\<in>set (?tbl (database w)). row \<in> set (?tbl d))"
      if "?keeps" "?uniq" "distinct (map ts_id (?tbl (database w)))"
         "set (t # list) \<subseteq> set (?tbl (database w))"
    proof -
      have sub: "set (?tbl (database w)) \<subseteq> set (?tbl d)"
        using that(1) [rule_format, of "database w"] call by (metis snd_conv)
      have "distinct (map ts_id (?tbl d))"
        using that(2) [rule_format, OF that(3)] call by (metis snd_conv)
      with sub that(4) show ?thesis by blast
    qed
    show ?thesis
      apply (intro exI [of _ 0] exI [of _ "[database w]"])
      using res call Some rows by simp
  next
    case None
    let ?w1 = "w\<lparr>database := R_store d (t\<lparr>generated_next := True\<rparr>)\<rparr>"
    from Cons.prems step None have rest: "for_each_timeslot g list ?w1 = (r, w')" by simp
    from Cons.IH [OF rest] obtain n ds where
          n: "n \<le> length list" and len: "length ds = Suc n"
      and d0: "ds ! 0 = database ?w1"
      and steps: "\<forall>i<n. fst (g (R_load_maintenance (ds ! i) (maintenance_id (list ! i)))
                          (end_date (list ! i)) False (ds ! i)) = None
               \<and> ds ! Suc i = R_store (snd (g (R_load_maintenance (ds ! i) (maintenance_id (list ! i)))
                                                (end_date (list ! i)) False (ds ! i)))
                                        ((list ! i)\<lparr>generated_next := True\<rparr>)"
      and out: "case r of
            Inr u \<Rightarrow> n = length list \<and> database w' = ds ! n
          | Inl e \<Rightarrow> n < length list
                     \<and> g (R_load_maintenance (ds ! n) (maintenance_id (list ! n)))
                          (end_date (list ! n)) False (ds ! n) = (Some e, database w')"
      and frame: "w' = ?w1\<lparr>database := database w'\<rparr>"
      and pre: "for_each_timeslot g (take n list) ?w1 = (Inr (), ?w1\<lparr>database := ds ! n\<rparr>)"
      and rows: "?keeps \<and> ?uniq
           \<and> distinct (map ts_id (?tbl (database ?w1)))
           \<and> set list \<subseteq> set (?tbl (database ?w1))
           \<and> distinct (map ts_id list)
          \<longrightarrow> distinct (map ts_id (?tbl (database w')))
            \<and> (\<forall>t\<in>set (take n list). t\<lparr>generated_next := True\<rparr> \<in> set (?tbl (database w')))
            \<and> (\<forall>t\<in>set (drop n list). t \<in> set (?tbl (database w')))
            \<and> (\<forall>row\<in>set (?tbl (database ?w1)).
                  ts_id row \<notin> ts_id ` set list \<longrightarrow> row \<in> set (?tbl (database w')))"
      by blast
    let ?ds = "database w # ds"
    have c1: "Suc n \<le> length (t # list)" using n by simp
    have c2: "length ?ds = Suc (Suc n)" using len by simp
    have c3: "?ds ! 0 = database w" by simp
    have first: "ds ! 0 = R_store d (t\<lparr>generated_next := True\<rparr>)" using d0 by simp
    have c4: "\<forall>i<Suc n. fst (g (R_load_maintenance (?ds ! i) (maintenance_id ((t # list) ! i)))
                          (end_date ((t # list) ! i)) False (?ds ! i)) = None
               \<and> ?ds ! Suc i = R_store (snd (g (R_load_maintenance (?ds ! i) (maintenance_id ((t # list) ! i)))
                                                (end_date ((t # list) ! i)) False (?ds ! i)))
                                        (((t # list) ! i)\<lparr>generated_next := True\<rparr>)"
    proof (intro allI impI)
      fix i assume i: "i < Suc n"
      show "fst (g (R_load_maintenance (?ds ! i) (maintenance_id ((t # list) ! i)))
                          (end_date ((t # list) ! i)) False (?ds ! i)) = None
               \<and> ?ds ! Suc i = R_store (snd (g (R_load_maintenance (?ds ! i) (maintenance_id ((t # list) ! i)))
                                                (end_date ((t # list) ! i)) False (?ds ! i)))
                                        (((t # list) ! i)\<lparr>generated_next := True\<rparr>)"
      proof (cases i)
        case 0
        then show ?thesis using call None first by simp
      next
        case (Suc j)
        with i have "j < n" by simp
        with steps Suc show ?thesis by simp
      qed
    qed
    have c5: "case r of
            Inr u \<Rightarrow> Suc n = length (t # list) \<and> database w' = ?ds ! Suc n
          | Inl e \<Rightarrow> Suc n < length (t # list)
                     \<and> g (R_load_maintenance (?ds ! Suc n) (maintenance_id ((t # list) ! Suc n)))
                          (end_date ((t # list) ! Suc n)) False (?ds ! Suc n) = (Some e, database w')"
      using out by (cases r) simp_all
    have c6: "w' = w\<lparr>database := database w'\<rparr>"
      using frame by (metis world.surjective world.update_convs(6) world.select_convs(6))
    have c6': "for_each_timeslot g (take (Suc n) (t # list)) w = (Inr (), w\<lparr>database := ?ds ! Suc n\<rparr>)"
      using pre step None by simp
    have c7: "distinct (map ts_id (?tbl (database w')))
            \<and> (\<forall>x\<in>set (take (Suc n) (t # list)). x\<lparr>generated_next := True\<rparr> \<in> set (?tbl (database w')))
            \<and> (\<forall>x\<in>set (drop (Suc n) (t # list)). x \<in> set (?tbl (database w')))
            \<and> (\<forall>row\<in>set (?tbl (database w)).
                  ts_id row \<notin> ts_id ` set (t # list) \<longrightarrow> row \<in> set (?tbl (database w')))"
      if k: "?keeps" and u: "?uniq" and dw: "distinct (map ts_id (?tbl (database w)))"
        and sub: "set (t # list) \<subseteq> set (?tbl (database w))" and dl: "distinct (map ts_id (t # list))"
    proof -
      have subd: "set (?tbl (database w)) \<subseteq> set (?tbl d)"
        using k [rule_format, of "database w"] call by (metis snd_conv)
      have dd: "distinct (map ts_id (?tbl d))"
        using u [rule_format, OF dw] call by (metis snd_conv)
      have d1: "distinct (map ts_id (?tbl (database ?w1)))"
        using dd by (simp add: R_store_ids)
      have t_in: "t \<in> set (?tbl d)" using sub subd by auto
      have flagged1: "t\<lparr>generated_next := True\<rparr> \<in> set (?tbl (database ?w1))"
        using R_store_mem [OF t_in, of "t\<lparr>generated_next := True\<rparr>"] by simp
      have notin: "ts_id t \<notin> ts_id ` set list" using dl by simp
      have keep1: "row \<in> set (?tbl (database ?w1))"
        if "row \<in> set (?tbl (database w))" "ts_id row \<noteq> ts_id t" for row
        using R_store_other [of row d "t\<lparr>generated_next := True\<rparr>"] that subd by auto
      have sub1: "set list \<subseteq> set (?tbl (database ?w1))"
      proof
        fix x assume x: "x \<in> set list"
        then have "ts_id x \<noteq> ts_id t" using notin by (metis imageI)
        moreover have "x \<in> set (?tbl (database w))" using x sub by auto
        ultimately show "x \<in> set (?tbl (database ?w1))" by (rule keep1 [rotated])
      qed
      have dl1: "distinct (map ts_id list)" using dl by simp
      from rows k u d1 sub1 dl1 have
            r1: "distinct (map ts_id (?tbl (database w')))"
        and r2: "\<forall>t\<in>set (take n list). t\<lparr>generated_next := True\<rparr> \<in> set (?tbl (database w'))"
        and r3: "\<forall>t\<in>set (drop n list). t \<in> set (?tbl (database w'))"
        and r4: "\<forall>row\<in>set (?tbl (database ?w1)).
                  ts_id row \<notin> ts_id ` set list \<longrightarrow> row \<in> set (?tbl (database w'))"
        by blast+
      have "ts_id (t\<lparr>generated_next := True\<rparr>) \<notin> ts_id ` set list" using notin by simp
      with r4 flagged1 have tf: "t\<lparr>generated_next := True\<rparr> \<in> set (?tbl (database w'))" by blast
      have a: "\<forall>x\<in>set (take (Suc n) (t # list)). x\<lparr>generated_next := True\<rparr> \<in> set (?tbl (database w'))"
        using tf r2 by simp
      have b: "\<forall>x\<in>set (drop (Suc n) (t # list)). x \<in> set (?tbl (database w'))"
        using r3 by simp
      have c: "\<forall>row\<in>set (?tbl (database w)).
                  ts_id row \<notin> ts_id ` set (t # list) \<longrightarrow> row \<in> set (?tbl (database w'))"
      proof (intro ballI impI)
        fix row assume row: "row \<in> set (?tbl (database w))"
          and nn: "ts_id row \<notin> ts_id ` set (t # list)"
        then have "ts_id row \<noteq> ts_id t" "ts_id row \<notin> ts_id ` set list" by auto
        with keep1 [OF row] r4 show "row \<in> set (?tbl (database w'))" by blast
      qed
      from r1 a b c show ?thesis by (intro conjI)
    qed
    show ?thesis
      apply (intro exI [of _ "Suc n"] exI [of _ ?ds] conjI)
      using c1 c2 c3 c4 c5 c6 c6' c7 by (blast | assumption)+
  qed
qed


lemma due_subset: "set (R_find_due d now) \<subseteq> set (maintenance_timeslot_table d)"
  by (auto simp: R_find_due_def)

lemma due_distinct:
  "distinct (map ts_id (maintenance_timeslot_table d)) \<Longrightarrow> distinct (map ts_id (R_find_due d now))"
  unfolding R_find_due_def by (rule distinct_map_filter)

lemma due_unflagged: "t \<in> set (R_find_due d now) \<Longrightarrow> \<not> generated_next t"
  by (simp add: R_find_due_def)

lemma unflagged_row_excludes_flagged:
  assumes "distinct (map ts_id rows)" and "t \<in> set rows" and "\<not> generated_next t"
  shows "t\<lparr>generated_next := True\<rparr> \<notin> set rows"
proof
  assume "t\<lparr>generated_next := True\<rparr> \<in> set rows"
  moreover have "inj_on ts_id (set rows)" using assms(1) by (simp add: distinct_map)
  moreover have "ts_id (t\<lparr>generated_next := True\<rparr>) = ts_id t" by simp
  ultimately have "t\<lparr>generated_next := True\<rparr> = t" using assms(2) by (meson inj_onD)
  then have "generated_next t" by (metis timeslot.select_convs(4) timeslot.surjective timeslot.update_convs(4))
  with assms(3) show False by simp
qed

text \<open>Claim C1. Let \<open>due\<close> be the slots matched by the query of a pass, \<open>g\<close> any roll-forward
  routine. Whatever the outcome, the pass is this and nothing else: there are a number \<open>n\<close> of
  completed slots and the databases \<open>ds ! 0, ..., ds ! n\<close> between the iterations, starting
  with the database of the call; for each of the first \<open>n\<close> slots the roll-forward was called
  on the database of that moment, with the window loaded for the slot's \<^verbatim>\<open>maintenance_id\<close>, the
  slot's end time and \<^verbatim>\<open>false\<close>, it resolved, and the slot with \<open>generated_next\<close> set was then
  stored into the database the roll-forward left. If the pass resolves, \<open>n\<close> is all of the
  slots; if it rejects, the roll-forward of slot \<open>n\<close> rejected and the database is the one
  that call left, no store having followed. So the flag is stored for a slot only after its
  roll-forward has succeeded. For a roll-forward that keeps the rows it finds and keeps ids
  unique, in a table with unique ids: the first \<open>n\<close> slots are in the final table with the
  flag set, and every other matched slot is still in the table as it was matched, without the
  flag.\<close>

theorem generated_next_only_after_roll_forward:
  assumes "generateMaintenanceTimeslots g now w = (r, w')"
      and due: "due = R_find_due (database w) now"
  shows "\<exists>n ds. n \<le> length due \<and> length ds = Suc n \<and> ds ! 0 = database w
      \<and> (\<forall>i<n. fst (g (R_load_maintenance (ds ! i) (maintenance_id (due ! i)))
                          (end_date (due ! i)) False (ds ! i)) = None
               \<and> ds ! Suc i = R_store (snd (g (R_load_maintenance (ds ! i) (maintenance_id (due ! i)))
                                                (end_date (due ! i)) False (ds ! i)))
                                        ((due ! i)\<lparr>generated_next := True\<rparr>))
      \<and> (case r of
            Inr u \<Rightarrow> n = length due \<and> database w' = ds ! n
          | Inl e \<Rightarrow> n < length due
                     \<and> g (R_load_maintenance (ds ! n) (maintenance_id (due ! n)))
                          (end_date (due ! n)) False (ds ! n) = (Some e, database w'))
      \<and> w' = w\<lparr>database := database w'\<rparr>
      \<and> ((\<forall>m e f d. set (maintenance_timeslot_table d) \<subseteq> set (maintenance_timeslot_table (snd (g m e f d))))
           \<and> (\<forall>m e f d. distinct (map ts_id (maintenance_timeslot_table d))
                 \<longrightarrow> distinct (map ts_id (maintenance_timeslot_table (snd (g m e f d)))))
           \<and> distinct (map ts_id (maintenance_timeslot_table (database w)))
          \<longrightarrow> (\<forall>t\<in>set (take n due). t\<lparr>generated_next := True\<rparr> \<in> set (maintenance_timeslot_table (database w')))
            \<and> (\<forall>t\<in>set (drop n due). t \<in> set (maintenance_timeslot_table (database w'))
                                     \<and> t\<lparr>generated_next := True\<rparr> \<notin> set (maintenance_timeslot_table (database w'))))"
proof -
  let ?tbl = "\<lambda>d. maintenance_timeslot_table d"
  let ?keeps = "\<forall>m e f d. set (?tbl d) \<subseteq> set (?tbl (snd (g m e f d)))"
  let ?uniq = "\<forall>m e f d. distinct (map ts_id (?tbl d)) \<longrightarrow> distinct (map ts_id (?tbl (snd (g m e f d))))"
  have run: "for_each_timeslot g due w = (r, w')"
    using assms by (simp add: generateMaintenanceTimeslots_def)
  from for_each_timeslot_run [OF run] obtain n ds where
        a: "n \<le> length due" "length ds = Suc n" "ds ! 0 = database w"
    and steps: "\<forall>i<n. fst (g (R_load_maintenance (ds ! i) (maintenance_id (due ! i)))
                          (end_date (due ! i)) False (ds ! i)) = None
               \<and> ds ! Suc i = R_store (snd (g (R_load_maintenance (ds ! i) (maintenance_id (due ! i)))
                                                (end_date (due ! i)) False (ds ! i)))
                                        ((due ! i)\<lparr>generated_next := True\<rparr>)"
    and out: "case r of
            Inr u \<Rightarrow> n = length due \<and> database w' = ds ! n
          | Inl e \<Rightarrow> n < length due
                     \<and> g (R_load_maintenance (ds ! n) (maintenance_id (due ! n)))
                          (end_date (due ! n)) False (ds ! n) = (Some e, database w')"
    and frame: "w' = w\<lparr>database := database w'\<rparr>"
    and rows: "?keeps \<and> ?uniq
           \<and> distinct (map ts_id (?tbl (database w)))
           \<and> set due \<subseteq> set (?tbl (database w))
           \<and> distinct (map ts_id due)
          \<longrightarrow> distinct (map ts_id (?tbl (database w')))
            \<and> (\<forall>t\<in>set (take n due). t\<lparr>generated_next := True\<rparr> \<in> set (?tbl (database w')))
            \<and> (\<forall>t\<in>set (drop n due). t \<in> set (?tbl (database w')))
            \<and> (\<forall>row\<in>set (?tbl (database w)).
                  ts_id row \<notin> ts_id ` set due \<longrightarrow> row \<in> set (?tbl (database w')))"
    by blast
  have rows': "(\<forall>t\<in>set (take n due). t\<lparr>generated_next := True\<rparr> \<in> set (?tbl (database w')))
            \<and> (\<forall>t\<in>set (drop n due). t \<in> set (?tbl (database w'))
                                     \<and> t\<lparr>generated_next := True\<rparr> \<notin> set (?tbl (database w')))"
    if h: "?keeps \<and> ?uniq \<and> distinct (map ts_id (?tbl (database w)))"
  proof -
    have s: "set due \<subseteq> set (?tbl (database w))" unfolding due by (rule due_subset)
    have dl: "distinct (map ts_id due)" unfolding due using h by (intro due_distinct) simp
    from rows h s dl have
          r1: "distinct (map ts_id (?tbl (database w')))"
      and r2: "\<forall>t\<in>set (take n due). t\<lparr>generated_next := True\<rparr> \<in> set (?tbl (database w'))"
      and r3: "\<forall>t\<in>set (drop n due). t \<in> set (?tbl (database w'))"
      by blast+
    have "t\<lparr>generated_next := True\<rparr> \<notin> set (?tbl (database w'))" if t: "t \<in> set (drop n due)" for t
    proof -
      have "t \<in> set due" using t by (rule in_set_dropD)
      then have "\<not> generated_next t" unfolding due by (rule due_unflagged)
      with r1 r3 t show ?thesis by (intro unflagged_row_excludes_flagged) auto
    qed
    with r2 r3 show ?thesis by blast
  qed
  show ?thesis
    apply (intro exI [of _ n] exI [of _ ds] conjI)
    using a steps out frame rows' by (blast | assumption)+
qed

lemma next_id_fresh: "r \<in> set rows \<Longrightarrow> ts_id r < next_id rows"
  by (induction rows) (auto simp: next_id_def)

lemma generateTimeslot_spec_keeps:
  "set (maintenance_timeslot_table d)
     \<subseteq> set (maintenance_timeslot_table (snd (generateTimeslot_spec nextSlot m e f d)))"
  by (auto simp: generateTimeslot_spec_def Let_def split: option.splits)

lemma generateTimeslot_spec_uniq:
  assumes "distinct (map ts_id (maintenance_timeslot_table d))"
  shows "distinct (map ts_id (maintenance_timeslot_table (snd (generateTimeslot_spec nextSlot m e f d))))"
proof -
  have "next_id (maintenance_timeslot_table d) \<notin> set (map ts_id (maintenance_timeslot_table d))"
  proof
    assume "next_id (maintenance_timeslot_table d) \<in> set (map ts_id (maintenance_timeslot_table d))"
    then obtain r where "r \<in> set (maintenance_timeslot_table d)"
        "ts_id r = next_id (maintenance_timeslot_table d)" by auto
    with next_id_fresh [of r "maintenance_timeslot_table d"] show False by simp
  qed
  with assms show ?thesis
    by (auto simp: generateTimeslot_spec_def Let_def split: option.splits)
qed

lemma generateTimeslot_spec_maintenance_table:
  "maintenance_table (snd (generateTimeslot_spec nextSlot m e f d)) = maintenance_table d"
  by (auto simp: generateTimeslot_spec_def Let_def split: option.splits)

lemmas sched_eval =
  generateMaintenanceTimeslots_def process_timeslot_def generateTimeslot_spec_def
  R_find_due_def R_load_maintenance_def R_store_def slot_key_def next_id_def Let_def
  dangling_world_def sound_world_def example_world_def window1_def slot1_def slot2_def
  slot3_def weekly_def


lemma due_sound: "R_find_due (database sound_world) 50 = [slot1, slot3]"
  by (simp add: R_find_due_def sound_world_def example_world_def slot1_def slot3_def)

lemma sound_pass_ok:
  "fst (generateMaintenanceTimeslots (generateTimeslot_spec weekly) 50 sound_world) = Inr ()"
  by (simp add: sched_eval)


lemma sound_distinct: "distinct (map ts_id (maintenance_timeslot_table (database sound_world)))"
  by (simp add: sound_world_def example_world_def slot1_def slot3_def)


theorem generated_next_only_after_roll_forward_witness:
  "\<exists>ds. length ds = 3 \<and> ds ! 0 = database sound_world
      \<and> fst (generateTimeslot_spec weekly (R_load_maintenance (ds ! 0) 1) 10 False (ds ! 0)) = None
      \<and> ds ! 1 = R_store (snd (generateTimeslot_spec weekly (R_load_maintenance (ds ! 0) 1) 10 False (ds ! 0)))
                          (slot1\<lparr>generated_next := True\<rparr>)
      \<and> fst (generateTimeslot_spec weekly (R_load_maintenance (ds ! 1) 1) 20 False (ds ! 1)) = None
      \<and> ds ! 2 = R_store (snd (generateTimeslot_spec weekly (R_load_maintenance (ds ! 1) 1) 20 False (ds ! 1)))
                          (slot3\<lparr>generated_next := True\<rparr>)
      \<and> database (snd (generateMaintenanceTimeslots (generateTimeslot_spec weekly) 50 sound_world)) = ds ! 2
      \<and> slot1\<lparr>generated_next := True\<rparr> \<in> set (maintenance_timeslot_table (database
            (snd (generateMaintenanceTimeslots (generateTimeslot_spec weekly) 50 sound_world))))
      \<and> slot3\<lparr>generated_next := True\<rparr> \<in> set (maintenance_timeslot_table (database
            (snd (generateMaintenanceTimeslots (generateTimeslot_spec weekly) 50 sound_world))))"
proof -
  let ?g = "generateTimeslot_spec weekly"
  let ?p = "generateMaintenanceTimeslots ?g 50 sound_world"
  let ?due = "[slot1, slot3]"
  have run: "?p = (Inr (), snd ?p)" using sound_pass_ok by (metis prod.collapse)
  have e: "end_date slot1 = 10" "end_date slot3 = 20"
          "maintenance_id slot1 = 1" "maintenance_id slot3 = 1"
    by (simp_all add: slot1_def slot3_def)
  have hyp: "(\<forall>m e f d. set (maintenance_timeslot_table d) \<subseteq> set (maintenance_timeslot_table (snd (?g m e f d))))
           \<and> (\<forall>m e f d. distinct (map ts_id (maintenance_timeslot_table d))
                 \<longrightarrow> distinct (map ts_id (maintenance_timeslot_table (snd (?g m e f d)))))
           \<and> distinct (map ts_id (maintenance_timeslot_table (database sound_world)))"
    using generateTimeslot_spec_keeps generateTimeslot_spec_uniq sound_distinct by blast
  from generated_next_only_after_roll_forward [OF run due_sound [symmetric]] obtain n ds where
        len: "length ds = Suc n" and d0: "ds ! 0 = database sound_world"
    and steps: "\<forall>i<n. fst (?g (R_load_maintenance (ds ! i) (maintenance_id (?due ! i)))
                          (end_date (?due ! i)) False (ds ! i)) = None
               \<and> ds ! Suc i = R_store (snd (?g (R_load_maintenance (ds ! i) (maintenance_id (?due ! i)))
                                                (end_date (?due ! i)) False (ds ! i)))
                                        ((?due ! i)\<lparr>generated_next := True\<rparr>)"
    and out: "n = length ?due \<and> database (snd ?p) = ds ! n"
    and rows: "\<forall>t\<in>set (take n ?due). t\<lparr>generated_next := True\<rparr>
                  \<in> set (maintenance_timeslot_table (database (snd ?p)))"
    using hyp by auto
  from out have n: "n = 2" by simp
  have q1: "length ds = 3" using len n by simp
  have q3: "fst (?g (R_load_maintenance (ds ! 0) 1) 10 False (ds ! 0)) = None"
    using steps [rule_format, of 0] n by (simp add: e)
  have q4: "ds ! 1 = R_store (snd (?g (R_load_maintenance (ds ! 0) 1) 10 False (ds ! 0)))
                          (slot1\<lparr>generated_next := True\<rparr>)"
    using steps [rule_format, of 0] n by (simp add: e)
  have q5: "fst (?g (R_load_maintenance (ds ! 1) 1) 20 False (ds ! 1)) = None"
    using steps [rule_format, of 1] n by (simp add: e)
  have q6: "ds ! 2 = R_store (snd (?g (R_load_maintenance (ds ! 1) 1) 20 False (ds ! 1)))
                          (slot3\<lparr>generated_next := True\<rparr>)"
    using steps [rule_format, of 1] n by (simp add: e numeral_2_eq_2)
  have q7: "database (snd ?p) = ds ! 2" using out n by simp
  have r: "slot1\<lparr>generated_next := True\<rparr> \<in> set (maintenance_timeslot_table (database (snd ?p)))"
          "slot3\<lparr>generated_next := True\<rparr> \<in> set (maintenance_timeslot_table (database (snd ?p)))"
    using rows n by simp_all
  show ?thesis
    by (intro exI [of _ ds] conjI) (fact q1 d0 q3 q4 q5 q6 q7 r)+
qed




subsection \<open>Idempotence of the pass over the spec's roll-forward\<close>











section \<open>ServerCoordinator\<close>

lemma process_timeslot_interval:
  assumes "process_timeslot g ts w = (r, w1)"
  shows "generateMaintenanceTimeslotsInterval w1 = generateMaintenanceTimeslotsInterval w"
  using assms
  by (auto simp: process_timeslot_def Let_def split: prod.splits option.splits)

lemma for_each_timeslot_interval:
  assumes "for_each_timeslot g list w = (r, w')"
  shows "generateMaintenanceTimeslotsInterval w' = generateMaintenanceTimeslotsInterval w"
  using assms
proof (induction list arbitrary: w)
  case Nil
  then show ?case by simp
next
  case (Cons ts list)
  obtain r1 w1 where step: "process_timeslot g ts w = (r1, w1)"
    by (cases "process_timeslot g ts w")
  note keep = process_timeslot_interval [OF step]
  show ?case
  proof (cases r1)
    case (Inl e)
    with Cons.prems step keep show ?thesis by simp
  next
    case (Inr u)
    with Cons.prems step have "for_each_timeslot g list w1 = (r, w')" by simp
    from Cons.IH [OF this] keep show ?thesis by simp
  qed
qed

lemma getTimezone_sound: "getTimezone sound_world = Inr (JStr ''UTC'')"
  by (simp add: getTimezone_def Settings_get_def sound_world_def example_world_def)

lemma getTimezone_broken: "getTimezone broken_settings_world = Inl (Rejected ''database is locked'')"
  by (simp add: getTimezone_def Settings_get_def broken_settings_world_def)

lemma getTimezone_bad_zone: "getTimezone bad_zone_world = Inr (JStr ''Mars/Phobos'')"
  by (simp add: getTimezone_def Settings_get_def bad_zone_world_def sound_world_def example_world_def)

lemma init_sound_ok:
  "fst (initAfterDatabaseReady None format_ok (generateTimeslot_spec weekly) 50 sound_world) = Inr ()"
  by (simp add: initAfterDatabaseReady_def getTimezone_def Settings_get_def format_ok_def sched_eval)

text \<open>Claim C9, as stated, fails: a failure of step (1) or of step (2) ends
  \<^verbatim>\<open>initAfterDatabaseReady\<close>. The database holds two due slots, and a scheduler pass would
  store \<open>slot1\<close> with its flag set. A rejected \<^verbatim>\<open>CacheableDnsHttpAgent.update()\<close>, and likewise
  a settings store that rejects the read of \<^verbatim>\<open>serverTimezone\<close>, makes the call reject in an
  unchanged state: the slot is still unflagged, so no scheduler pass was run, and no recurring
  pass is armed.\<close>

theorem initAfterDatabaseReady_runs_scheduler_counterexample:
  "R_find_due (database sound_world) 50 = [slot1, slot3]
   \<and> slot1\<lparr>generated_next := True\<rparr> \<in> set (maintenance_timeslot_table (database
        (snd (generateMaintenanceTimeslots (generateTimeslot_spec weekly) 50 sound_world))))
   \<and> initAfterDatabaseReady (Some (Rejected ''getaddrinfo'')) format_ok (generateTimeslot_spec weekly) 50
        sound_world = (Inl (Rejected ''getaddrinfo''), sound_world)
   \<and> initAfterDatabaseReady None format_ok (generateTimeslot_spec weekly) 50 broken_settings_world
        = (Inl (Rejected ''database is locked''), broken_settings_world)
   \<and> slot1\<lparr>generated_next := True\<rparr> \<notin> set (maintenance_timeslot_table (database sound_world))
   \<and> generateMaintenanceTimeslotsInterval sound_world = None
   \<and> slot1\<lparr>generated_next := True\<rparr> \<notin> set (maintenance_timeslot_table (database broken_settings_world))
   \<and> generateMaintenanceTimeslotsInterval broken_settings_world = None"
proof -
  have 1: "R_find_due (database sound_world) 50 = [slot1, slot3]" by (rule due_sound)
  have 2: "slot1\<lparr>generated_next := True\<rparr> \<in> set (maintenance_timeslot_table (database
        (snd (generateMaintenanceTimeslots (generateTimeslot_spec weekly) 50 sound_world))))"
    by (simp add: sched_eval)
  have 3: "initAfterDatabaseReady (Some (Rejected ''getaddrinfo'')) format_ok (generateTimeslot_spec weekly) 50
        sound_world = (Inl (Rejected ''getaddrinfo''), sound_world)"
    by (simp add: initAfterDatabaseReady_def)
  have 4: "initAfterDatabaseReady None format_ok (generateTimeslot_spec weekly) 50 broken_settings_world
        = (Inl (Rejected ''database is locked''), broken_settings_world)"
    by (simp add: initAfterDatabaseReady_def getTimezone_broken)
  have 5: "slot1\<lparr>generated_next := True\<rparr> \<notin> set (maintenance_timeslot_table (database sound_world))"
    by (simp add: sched_eval)
  have 6: "generateMaintenanceTimeslotsInterval sound_world = None"
    by (simp add: sound_world_def example_world_def)
  have 7: "slot1\<lparr>generated_next := True\<rparr> \<notin> set (maintenance_timeslot_table (database broken_settings_world))"
    by (simp add: broken_settings_world_def sched_eval)
  have 8: "generateMaintenanceTimeslotsInterval broken_settings_world = None"
    by (simp add: broken_settings_world_def sound_world_def example_world_def)
  from 1 2 3 4 5 6 7 8 show ?thesis by (intro conjI)
qed

text \<open>Claim C9, amended. The steps of \<^verbatim>\<open>initAfterDatabaseReady\<close> are awaited one after the
  other without error handling, and the first failure ends the call. If step (1) fails, or if
  in step (2) the timezone cannot be resolved, the call rejects with that error in an
  unchanged state. If in step (2) the resolved zone has been assigned to \<^verbatim>\<open>process.env.TZ\<close>
  and to the date library's default and formatting the current time in it then throws, the
  call rejects with that error in the state where only those two have changed. In these three
  cases steps (3) and (4) are not run: the database is untouched and the timer field is what
  it was. If the pass of step (3) rejects, the call rejects with that error in the state the
  pass left, and step (4) is not run. The call resolves exactly when step (1), the timezone
  steps and the scheduler pass all succeed, and only then is the recurring pass armed, with
  60000 ms; a call that rejects leaves an unarmed timer unarmed.\<close>

theorem initAfterDatabaseReady_stops_at_first_failure:
  "(dns = Some e \<longrightarrow> initAfterDatabaseReady dns fmt g now w = (Inl e, w))
   \<and> (dns = None \<and> getTimezone w = Inl e \<longrightarrow> initAfterDatabaseReady dns fmt g now w = (Inl e, w))
   \<and> (dns = None \<and> getTimezone w = Inr tz \<and> fmt (Some (js_String tz)) = Inl e \<longrightarrow>
        initAfterDatabaseReady dns fmt g now w
          = (Inl e, w\<lparr>env_TZ := Some (js_String tz), dayjs_default := Some (js_String tz)\<rparr>))
   \<and> (dns = None \<and> getTimezone w = Inr tz \<and> fmt (Some (js_String tz)) = Inr current_time
        \<and> generateMaintenanceTimeslots g now
             (w\<lparr>env_TZ := Some (js_String tz), dayjs_default := Some (js_String tz)\<rparr>) = (Inl e, w3) \<longrightarrow>
        initAfterDatabaseReady dns fmt g now w = (Inl e, w3)
        \<and> generateMaintenanceTimeslotsInterval w3 = generateMaintenanceTimeslotsInterval w)
   \<and> (initAfterDatabaseReady dns fmt g now w = (Inr (), w') \<longleftrightarrow>
        dns = None
        \<and> (\<exists>tz current_time w3.
              getTimezone w = Inr tz
            \<and> fmt (Some (js_String tz)) = Inr current_time
            \<and> generateMaintenanceTimeslots g now
                 (w\<lparr>env_TZ := Some (js_String tz), dayjs_default := Some (js_String tz)\<rparr>) = (Inr (), w3)
            \<and> w' = w3\<lparr>generateMaintenanceTimeslotsInterval := Some 60000\<rparr>))
   \<and> (generateMaintenanceTimeslotsInterval w = None
        \<and> fst (initAfterDatabaseReady dns fmt g now w) \<noteq> Inr ()
      \<longrightarrow> generateMaintenanceTimeslotsInterval (snd (initAfterDatabaseReady dns fmt g now w)) = None)"
proof (intro conjI impI)
  assume "dns = Some e"
  then show "initAfterDatabaseReady dns fmt g now w = (Inl e, w)"
    by (simp add: initAfterDatabaseReady_def)
next
  assume "dns = None \<and> getTimezone w = Inl e"
  then show "initAfterDatabaseReady dns fmt g now w = (Inl e, w)"
    by (simp add: initAfterDatabaseReady_def)
next
  assume "dns = None \<and> getTimezone w = Inr tz \<and> fmt (Some (js_String tz)) = Inl e"
  then show "initAfterDatabaseReady dns fmt g now w
          = (Inl e, w\<lparr>env_TZ := Some (js_String tz), dayjs_default := Some (js_String tz)\<rparr>)"
    by (simp add: initAfterDatabaseReady_def Let_def)
next
  assume "dns = None \<and> getTimezone w = Inr tz \<and> fmt (Some (js_String tz)) = Inr current_time
        \<and> generateMaintenanceTimeslots g now
             (w\<lparr>env_TZ := Some (js_String tz), dayjs_default := Some (js_String tz)\<rparr>) = (Inl e, w3)"
  then show "initAfterDatabaseReady dns fmt g now w = (Inl e, w3)"
    by (simp add: initAfterDatabaseReady_def Let_def)
next
  assume "dns = None \<and> getTimezone w = Inr tz \<and> fmt (Some (js_String tz)) = Inr current_time
        \<and> generateMaintenanceTimeslots g now
             (w\<lparr>env_TZ := Some (js_String tz), dayjs_default := Some (js_String tz)\<rparr>) = (Inl e, w3)"
  then have "for_each_timeslot g
               (R_find_due (database (w\<lparr>env_TZ := Some (js_String tz), dayjs_default := Some (js_String tz)\<rparr>)) now)
               (w\<lparr>env_TZ := Some (js_String tz), dayjs_default := Some (js_String tz)\<rparr>) = (Inl e, w3)"
    by (simp add: generateMaintenanceTimeslots_def)
  from for_each_timeslot_interval [OF this]
  show "generateMaintenanceTimeslotsInterval w3 = generateMaintenanceTimeslotsInterval w"
    by simp
next
  show "initAfterDatabaseReady dns fmt g now w = (Inr (), w') \<longleftrightarrow>
        dns = None
        \<and> (\<exists>tz current_time w3.
              getTimezone w = Inr tz
            \<and> fmt (Some (js_String tz)) = Inr current_time
            \<and> generateMaintenanceTimeslots g now
                 (w\<lparr>env_TZ := Some (js_String tz), dayjs_default := Some (js_String tz)\<rparr>) = (Inr (), w3)
            \<and> w' = w3\<lparr>generateMaintenanceTimeslotsInterval := Some 60000\<rparr>)"
    by (auto simp: initAfterDatabaseReady_def Let_def split: option.splits sum.splits prod.splits)
next
  assume a: "generateMaintenanceTimeslotsInterval w = None
             \<and> fst (initAfterDatabaseReady dns fmt g now w) \<noteq> Inr ()"
  show "generateMaintenanceTimeslotsInterval (snd (initAfterDatabaseReady dns fmt g now w)) = None"
  proof (cases dns)
    case (Some e')
    with a show ?thesis by (simp add: initAfterDatabaseReady_def)
  next
    case None
    show ?thesis
    proof (cases "getTimezone w")
      case (Inl e')
      with a None show ?thesis by (simp add: initAfterDatabaseReady_def)
    next
      case (Inr tz)
      let ?w2 = "w\<lparr>env_TZ := Some (js_String tz), dayjs_default := Some (js_String tz)\<rparr>"
      show ?thesis
      proof (cases "fmt (Some (js_String tz))")
        case (Inl e')
        with a None Inr show ?thesis by (simp add: initAfterDatabaseReady_def Let_def)
      next
        case fm: (Inr s)
        obtain r3 w3 where pass: "generateMaintenanceTimeslots g now ?w2 = (r3, w3)"
          by (cases "generateMaintenanceTimeslots g now ?w2")
        then have keep: "generateMaintenanceTimeslotsInterval w3 = None"
          using for_each_timeslot_interval [of g _ ?w2 r3 w3] a
          by (simp add: generateMaintenanceTimeslots_def)
        show ?thesis
        proof (cases r3)
          case (Inl e')
          with None Inr fm pass keep show ?thesis
            by (simp add: initAfterDatabaseReady_def Let_def)
        next
          case r: (Inr u)
          with None Inr fm pass a show ?thesis
            by (simp add: initAfterDatabaseReady_def Let_def)
        qed
      qed
    qed
  qed
qed

theorem initAfterDatabaseReady_stops_at_first_failure_witness:
  "initAfterDatabaseReady (Some (Rejected ''getaddrinfo'')) format_ok (generateTimeslot_spec weekly) 50
        sound_world = (Inl (Rejected ''getaddrinfo''), sound_world)
   \<and> initAfterDatabaseReady None format_ok (generateTimeslot_spec weekly) 50 broken_settings_world
        = (Inl (Rejected ''database is locked''), broken_settings_world)
   \<and> initAfterDatabaseReady None format_iana (generateTimeslot_spec weekly) 50 bad_zone_world
        = (Inl RangeError, bad_zone_world\<lparr>env_TZ := Some ''Mars/Phobos'', dayjs_default := Some ''Mars/Phobos''\<rparr>)
   \<and> initAfterDatabaseReady None format_ok (generateTimeslot_spec weekly) 50 dangling_world
        = (Inl TypeError,
           snd (generateMaintenanceTimeslots (generateTimeslot_spec weekly) 50
                  (dangling_world\<lparr>env_TZ := Some ''UTC'', dayjs_default := Some ''UTC''\<rparr>)))
   \<and> generateMaintenanceTimeslotsInterval
        (snd (generateMaintenanceTimeslots (generateTimeslot_spec weekly) 50
                  (dangling_world\<lparr>env_TZ := Some ''UTC'', dayjs_default := Some ''UTC''\<rparr>))) = None
   \<and> generateMaintenanceTimeslotsInterval
        (snd (initAfterDatabaseReady None format_ok (generateTimeslot_spec weekly) 50 sound_world))
        = Some 60000
   \<and> generateMaintenanceTimeslotsInterval
        (snd (initAfterDatabaseReady None format_ok (generateTimeslot_spec weekly) 50 broken_settings_world))
        = None"
proof -
  let ?g = "generateTimeslot_spec weekly"
  let ?run = "initAfterDatabaseReady None format_ok ?g 50 sound_world"
  let ?d2 = "dangling_world\<lparr>env_TZ := Some ''UTC'', dayjs_default := Some ''UTC''\<rparr>"
  note T = initAfterDatabaseReady_stops_at_first_failure
  have 1: "initAfterDatabaseReady (Some (Rejected ''getaddrinfo'')) format_ok ?g 50 sound_world
             = (Inl (Rejected ''getaddrinfo''), sound_world)"
    using T [of "Some (Rejected ''getaddrinfo'')" "Rejected ''getaddrinfo''" format_ok ?g 50 sound_world,
             THEN conjunct1]
    by simp
  have 2: "initAfterDatabaseReady None format_ok ?g 50 broken_settings_world
             = (Inl (Rejected ''database is locked''), broken_settings_world)"
    using T [of None "Rejected ''database is locked''" format_ok ?g 50 broken_settings_world,
             THEN conjunct2, THEN conjunct1] getTimezone_broken
    by simp
  have f: "format_iana (Some (js_String (JStr ''Mars/Phobos''))) = Inl RangeError"
    by (simp add: format_iana_def)
  have 3: "initAfterDatabaseReady None format_iana ?g 50 bad_zone_world
        = (Inl RangeError, bad_zone_world\<lparr>env_TZ := Some ''Mars/Phobos'', dayjs_default := Some ''Mars/Phobos''\<rparr>)"
    using T [of None RangeError format_iana ?g 50 bad_zone_world "JStr ''Mars/Phobos''",
             THEN conjunct2, THEN conjunct2, THEN conjunct1] getTimezone_bad_zone f
    by simp
  have tzd: "getTimezone dangling_world = Inr (JStr ''UTC'')"
    by (simp add: getTimezone_def Settings_get_def dangling_world_def example_world_def)
  have fo: "format_ok (Some (js_String (JStr ''UTC''))) = Inr ''2022-10-11T12:00:00+00:00''"
    by (simp add: format_ok_def)
  have "fst (generateMaintenanceTimeslots ?g 50 ?d2) = Inl TypeError"
    by (simp add: sched_eval)
  then have pd: "generateMaintenanceTimeslots ?g 50
                   (dangling_world\<lparr>env_TZ := Some (js_String (JStr ''UTC'')),
                                   dayjs_default := Some (js_String (JStr ''UTC''))\<rparr>)
                 = (Inl TypeError, snd (generateMaintenanceTimeslots ?g 50 ?d2))"
    by (simp add: prod_eq_iff)
  note T4 = T [of None TypeError format_ok ?g 50 dangling_world "JStr ''UTC''"
                 "''2022-10-11T12:00:00+00:00''" "snd (generateMaintenanceTimeslots ?g 50 ?d2)",
               THEN conjunct2, THEN conjunct2, THEN conjunct2, THEN conjunct1, rule_format,
               OF conjI [OF refl conjI [OF tzd conjI [OF fo pd]]]]
  have 4: "initAfterDatabaseReady None format_ok ?g 50 dangling_world
             = (Inl TypeError, snd (generateMaintenanceTimeslots ?g 50 ?d2))"
    by (rule T4 [THEN conjunct1])
  have nd: "generateMaintenanceTimeslotsInterval dangling_world = None"
    by (simp add: dangling_world_def example_world_def)
  have 5: "generateMaintenanceTimeslotsInterval (snd (generateMaintenanceTimeslots ?g 50 ?d2)) = None"
    using T4 [THEN conjunct2] nd by simp
  have "?run = (Inr (), snd ?run)" using init_sound_ok by (metis prod.collapse)
  then have "\<exists>w3. snd ?run = w3\<lparr>generateMaintenanceTimeslotsInterval := Some 60000\<rparr>"
    using T [of None _ format_ok ?g 50 sound_world _ _ _ "snd ?run",
             THEN conjunct2, THEN conjunct2, THEN conjunct2, THEN conjunct2, THEN conjunct1]
    by blast
  then obtain w3 where "snd ?run = w3\<lparr>generateMaintenanceTimeslotsInterval := Some 60000\<rparr>" ..
  then have 6: "generateMaintenanceTimeslotsInterval (snd ?run) = Some 60000" by simp
  have n: "generateMaintenanceTimeslotsInterval broken_settings_world = None"
    by (simp add: broken_settings_world_def sound_world_def example_world_def)
  have 7: "generateMaintenanceTimeslotsInterval
        (snd (initAfterDatabaseReady None format_ok ?g 50 broken_settings_world)) = None"
    using T [of None _ format_ok ?g 50 broken_settings_world,
             THEN conjunct2, THEN conjunct2, THEN conjunct2, THEN conjunct2, THEN conjunct2] n 2
    by simp
  show ?thesis using 1 2 3 4 5 6 7 by (intro conjI)
qed


subsection \<open>The singleton\<close>

lemma first_call:
  "fst (getInstance plain_host (Some Map.empty) fresh_process) = Inr 0"
  by (simp add: getInstance_def new_UptimeKumaServer_def readFileSync_def js_or_def
                plain_host_def fresh_process_def)

text \<open>Claim C7. Once a call of \<open>getInstance\<close> has returned an instance, every later call,
  whatever its arguments and whatever the host then looks like, returns the same reference
  and changes nothing, so the arguments of later calls have no effect. If no instance existed
  before that call, the instance is a new object, built by the constructor from that call's
  arguments.\<close>

theorem getInstance_singleton:
  assumes "getInstance h1 args1 p = (Inr r, p1)"
  shows "getInstance h2 args2 p1 = (Inr r, p1)
       \<and> static_instance p1 = Some r
       \<and> (static_instance p = None \<longrightarrow>
             r = length (heap p)
           \<and> (\<exists>obj. new_UptimeKumaServer h1 args1 = Inr obj \<and> heap p1 = heap p @ [obj]))"
  using assms
  by (auto simp: getInstance_def split: option.splits sum.splits)

theorem getInstance_singleton_witness:
  "getInstance plain_host (Some [''ssl-key'' \<mapsto> ''key.pem'', ''ssl-cert'' \<mapsto> ''cert.pem''])
       (snd (getInstance plain_host (Some Map.empty) fresh_process))
     = (Inr 0, snd (getInstance plain_host (Some Map.empty) fresh_process))
   \<and> getInstance plain_host None (snd (getInstance plain_host (Some Map.empty) fresh_process))
     = (Inr 0, snd (getInstance plain_host (Some Map.empty) fresh_process))
   \<and> static_instance (snd (getInstance plain_host (Some Map.empty) fresh_process)) = Some 0
   \<and> (\<exists>obj. new_UptimeKumaServer plain_host (Some Map.empty) = Inr obj
          \<and> heap (snd (getInstance plain_host (Some Map.empty) fresh_process)) = heap fresh_process @ [obj])"
proof -
  let ?p1 = "snd (getInstance plain_host (Some Map.empty) fresh_process)"
  have run: "getInstance plain_host (Some Map.empty) fresh_process = (Inr 0, ?p1)"
    using first_call by (metis prod.collapse)
  have none: "static_instance fresh_process = None" by (simp add: fresh_process_def)
  note T = getInstance_singleton [OF run]
  have 1: "getInstance plain_host (Some [''ssl-key'' \<mapsto> ''key.pem'', ''ssl-cert'' \<mapsto> ''cert.pem'']) ?p1
             = (Inr 0, ?p1)"
    by (rule T [THEN conjunct1])
  have 2: "getInstance plain_host None ?p1 = (Inr 0, ?p1)"
    by (rule T [THEN conjunct1])
  have 3: "static_instance ?p1 = Some 0"
    by (rule T [of plain_host None, THEN conjunct2, THEN conjunct1])
  have 4: "\<exists>obj. new_UptimeKumaServer plain_host (Some Map.empty) = Inr obj
          \<and> heap ?p1 = heap fresh_process @ [obj]"
    using T [of plain_host None, THEN conjunct2, THEN conjunct2] none by blast
  show ?thesis using 1 2 3 4 by (intro conjI)
qed

section \<open>RealtimeBroadcaster\<close>

lemma listing_found:
  "R_find_maintenance (database listing_world) 1 = [window2, window1]"
  by (simp add: R_find_maintenance_def listing_world_def example_world_def
                window1_def window2_def window3_def less_eq_prod_def less_prod_def)

lemma listing_json:
  "getMaintenanceJSONList title_view 1 listing_world
     = Inr (Map.empty(m_id window2 \<mapsto> m_title window2, m_id window1 \<mapsto> m_title window1))"
  unfolding getMaintenanceJSONList_def listing_found by (simp add: title_view_def)

lemma listing_ok:
  "\<exists>list. fst (sendMaintenanceList title_view socket_direct listing_world) = Inr list"
proof -
  have u: "userID socket_direct = 1" by (simp add: socket_direct_def mk_socket_def)
  show ?thesis
    unfolding sendMaintenanceList_def sendMaintenanceListByUserID_def u listing_json by simp
qed

text \<open>Claim C10. \<open>sendMaintenanceList\<close> on a socket is \<open>sendMaintenanceListByUserID\<close> on the
  socket's user id: same result and same final state. When it returns a mapping, that mapping
  is the user's maintenance list and the only effect is one \<^verbatim>\<open>maintenanceList\<close> emission of
  that mapping to the room of the socket's user id; when it rejects, nothing was emitted.\<close>

theorem sendMaintenanceList_delegates:
  "sendMaintenanceList toJSON socket w = sendMaintenanceListByUserID toJSON (userID socket) w
   \<and> (\<forall>list w'. sendMaintenanceList toJSON socket w = (Inr list, w') \<longrightarrow>
          getMaintenanceJSONList toJSON (userID socket) w = Inr list
        \<and> w' = w\<lparr>emitted := emitted w @ [(userID socket, ''maintenanceList'', list)]\<rparr>)
   \<and> (\<forall>e w'. sendMaintenanceList toJSON socket w = (Inl e, w') \<longrightarrow>
          getMaintenanceJSONList toJSON (userID socket) w = Inl e \<and> w' = w)"
  by (auto simp: sendMaintenanceList_def sendMaintenanceListByUserID_def split: sum.splits)

theorem sendMaintenanceList_delegates_witness:
  "sendMaintenanceList title_view socket_direct listing_world
     = sendMaintenanceListByUserID title_view 1 listing_world
   \<and> (\<exists>list. getMaintenanceJSONList title_view 1 listing_world = Inr list
          \<and> list 1 = Some ''db upgrade'' \<and> list 2 = Some ''cache flush'' \<and> list 3 = None
          \<and> snd (sendMaintenanceList title_view socket_direct listing_world)
              = listing_world\<lparr>emitted := emitted listing_world @ [(1, ''maintenanceList'', list)]\<rparr>)"
proof -
  let ?run = "sendMaintenanceList title_view socket_direct listing_world"
  have u: "userID socket_direct = 1" by (simp add: socket_direct_def mk_socket_def)
  from listing_ok obtain list where "fst ?run = Inr list" ..
  then have run: "?run = (Inr list, snd ?run)" by (metis prod.collapse)
  note T = sendMaintenanceList_delegates [of title_view socket_direct listing_world]
  have 1: "?run = sendMaintenanceListByUserID title_view 1 listing_world"
    using T [THEN conjunct1] unfolding u .
  have 2: "getMaintenanceJSONList title_view 1 listing_world = Inr list
         \<and> snd ?run = listing_world\<lparr>emitted := emitted listing_world @ [(1, ''maintenanceList'', list)]\<rparr>"
    using T [THEN conjunct2, THEN conjunct1, rule_format, OF run] unfolding u .
  from 2 have "list = Map.empty(m_id window2 \<mapsto> m_title window2, m_id window1 \<mapsto> m_title window1)"
    unfolding listing_json by simp
  then have 3: "list 1 = Some ''db upgrade'' \<and> list 2 = Some ''cache flush'' \<and> list 3 = None"
    by (simp add: window1_def window2_def)
  from 1 2 3 show ?thesis by blast
qed

end
